theory Spec2Isabelle
  imports Complex_Main
begin

section \<open>The pool table of main.c\<close>

text \<open>
  A shallow embedding of the physics core of \<^verbatim>\<open>src/main.c\<close>: the globals
  \<^verbatim>\<open>gBalls\<close>, \<^verbatim>\<open>gPockets\<close>, \<^verbatim>\<open>gCurrentState\<close> and \<^verbatim>\<open>gGameIsRunning\<close> are
  the fields of one record that every function takes and returns.

  Numbers. The C \<^verbatim>\<open>float\<close>s are modelled as exact reals: rounding, overflow and the
  special values of IEEE arithmetic are outside the model. The one operation of the
  source that has no real value, the division by a zero centre distance in the
  collision code, is an error value of the model (\<open>Inl DivisionByZero\<close>) instead of
  HOL's \<open>a / 0 = 0\<close>.
\<close>

subsection \<open>Constants (lines 17-31)\<close>

definition SCREEN_WIDTH :: real where "SCREEN_WIDTH = 1000"
definition SCREEN_HEIGHT :: real where "SCREEN_HEIGHT = 500"
definition TABLE_WIDTH :: real where "TABLE_WIDTH = 900"
definition TABLE_HEIGHT :: real where "TABLE_HEIGHT = 450"
definition BALL_RADIUS :: real where "BALL_RADIUS = 15"
definition BALL_DIAMETER :: real where "BALL_DIAMETER = BALL_RADIUS * 2"
definition NUM_BALLS :: nat where "NUM_BALLS = 16"
definition POCKET_RADIUS :: real where "POCKET_RADIUS = 30"
definition FRICTION :: real where "FRICTION = 992 / 1000"
definition CUE_POWER_MULTIPLIER :: real where "CUE_POWER_MULTIPLIER = 15 / 100"
definition MIN_VELOCITY :: real where "MIN_VELOCITY = 1 / 10"

subsection \<open>Data structures (lines 35-68)\<close>

text \<open>
  The fields \<^verbatim>\<open>x\<close>, \<^verbatim>\<open>y\<close> of \<^verbatim>\<open>Vec2D\<close> are \<open>vec_x\<close>, \<open>vec_y\<close>, the field \<^verbatim>\<open>id\<close> of
  \<^verbatim>\<open>Ball\<close> is \<open>ball_id\<close> and the field \<^verbatim>\<open>pos\<close> of \<^verbatim>\<open>Pocket\<close> is \<open>pocket_pos\<close>: the
  short names would capture variables and constants of HOL.
\<close>

record Vec2D =
  vec_x :: real
  vec_y :: real

type_synonym SDL_Color = "nat \<times> nat \<times> nat \<times> nat"

record Ball =
  ball_id :: int
  isActive :: bool
  pos :: Vec2D
  vel :: Vec2D
  color :: SDL_Color

record Pocket =
  pocket_pos :: Vec2D

datatype GameState = STATE_AIMING | STATE_SIMULATING | STATE_GAME_OVER

record World =
  gBalls :: "Ball list"
  gPockets :: "Pocket list"
  gCurrentState :: GameState
  gGameIsRunning :: bool

text \<open>
  \<open>DivisionByZero\<close>: the source divides by \<^verbatim>\<open>dist\<close> with \<^verbatim>\<open>dist == 0\<close> (IEEE gives NaN,
  which then poisons both balls).
\<close>

datatype error = DivisionByZero

subsection \<open>setup_table and reset_game (lines 122-187)\<close>

definition colors :: "SDL_Color list" where
  "colors =
    [(255, 255, 255, 255), (255, 215, 0, 255), (0, 0, 255, 255), (255, 0, 0, 255),
     (75, 0, 130, 255), (255, 165, 0, 255), (0, 128, 0, 255), (128, 0, 0, 255),
     (0, 0, 0, 255), (255, 215, 0, 255), (0, 0, 255, 255), (255, 0, 0, 255),
     (75, 0, 130, 255), (255, 165, 0, 255), (0, 128, 0, 255), (128, 0, 0, 255)]"

text \<open>The first loop (lines 144-149) sets every field of ball \<open>i\<close> but its position.\<close>

definition init_ball :: "Ball list \<Rightarrow> nat \<Rightarrow> Ball" where
  "init_ball bs i =
    (bs ! i)\<lparr>ball_id := int i, isActive := True,
             vel := \<lparr>vec_x = 0, vec_y = 0\<rparr>, color := colors ! i\<rparr>"

definition startX :: real where "startX = SCREEN_WIDTH * (75 / 100)"
definition startY :: real where "startY = SCREEN_HEIGHT / 2"
definition ball_offset :: real where "ball_offset = BALL_DIAMETER * (88 / 100)"

definition rackOrder :: "nat list" where
  "rackOrder = [1, 9, 15, 2, 8, 14, 3, 10, 7, 13, 4, 11, 6, 12, 5]"

text \<open>The (row, col) pairs in the order the nested loop of lines 159-165 visits them.\<close>

definition rack_cells :: "(nat \<times> nat) list" where
  "rack_cells = concat (map (\<lambda>row. map (\<lambda>col. (row, col)) [0..<Suc row]) [0..<5])"

definition place_ball :: "(nat \<times> nat) \<times> nat \<Rightarrow> Ball list \<Rightarrow> Ball list" where
  "place_ball cell bs =
    (case cell of ((row, col), k) \<Rightarrow>
      bs[k := (bs ! k)\<lparr>pos :=
        \<lparr>vec_x = startX + real row * ball_offset,
         vec_y = startY + real col * BALL_DIAMETER - real row * BALL_RADIUS\<rparr>\<rparr>])"

definition tableX :: real where "tableX = (SCREEN_WIDTH - TABLE_WIDTH) / 2"
definition tableY :: real where "tableY = (SCREEN_HEIGHT - TABLE_HEIGHT) / 2"

definition setup_pockets :: "Pocket list" where
  "setup_pockets =
    [\<lparr>pocket_pos = \<lparr>vec_x = tableX, vec_y = tableY\<rparr>\<rparr>,
     \<lparr>pocket_pos = \<lparr>vec_x = tableX + TABLE_WIDTH / 2, vec_y = tableY\<rparr>\<rparr>,
     \<lparr>pocket_pos = \<lparr>vec_x = tableX + TABLE_WIDTH, vec_y = tableY\<rparr>\<rparr>,
     \<lparr>pocket_pos = \<lparr>vec_x = tableX, vec_y = tableY + TABLE_HEIGHT\<rparr>\<rparr>,
     \<lparr>pocket_pos = \<lparr>vec_x = tableX + TABLE_WIDTH / 2, vec_y = tableY + TABLE_HEIGHT\<rparr>\<rparr>,
     \<lparr>pocket_pos = \<lparr>vec_x = tableX + TABLE_WIDTH, vec_y = tableY + TABLE_HEIGHT\<rparr>\<rparr>]"

definition setup_table :: "World \<Rightarrow> World" where
  "setup_table w =
    (let bs1 = map (init_ball (gBalls w)) [0..<NUM_BALLS];
         bs2 = fold place_ball (zip rack_cells rackOrder) bs1;
         bs3 = bs2[0 := (bs2 ! 0)\<lparr>pos :=
                 \<lparr>vec_x = SCREEN_WIDTH * (25 / 100), vec_y = SCREEN_HEIGHT / 2\<rparr>\<rparr>]
     in w\<lparr>gBalls := bs3, gPockets := setup_pockets\<rparr>)"

definition reset_game :: "World \<Rightarrow> World" where
  "reset_game w = (setup_table w)\<lparr>gCurrentState := STATE_AIMING\<rparr>"

subsection \<open>handle_input (lines 205-240)\<close>

text \<open>
  The events \<^verbatim>\<open>SDL_PollEvent\<close> delivers. A mouse-button event carries the pointer
  position that \<^verbatim>\<open>SDL_GetMouseState\<close> returns while it is handled.
\<close>

datatype Key = SDLK_ESCAPE | SDLK_r | SDLK_other

datatype Event =
  SDL_QUIT
  | SDL_KEYDOWN Key
  | SDL_MOUSEBUTTONDOWN int int
  | SDL_OTHER

definition shoot :: "int \<Rightarrow> int \<Rightarrow> World \<Rightarrow> World" where
  "shoot mouseX mouseY w =
    (let cue = gBalls w ! 0;
         dx = real_of_int mouseX - vec_x (pos cue);
         dy = real_of_int mouseY - vec_y (pos cue)
     in w\<lparr>gBalls := (gBalls w)[0 := cue\<lparr>vel :=
              \<lparr>vec_x = - dx * CUE_POWER_MULTIPLIER, vec_y = - dy * CUE_POWER_MULTIPLIER\<rparr>\<rparr>],
           gCurrentState := STATE_SIMULATING\<rparr>)"

text \<open>The body of the polling loop, for one event.\<close>

definition handle_event :: "Event \<Rightarrow> World \<Rightarrow> World" where
  "handle_event e w =
    (let w1 = (if e = SDL_QUIT then w\<lparr>gGameIsRunning := False\<rparr> else w);
         w2 = (case e of
                 SDL_KEYDOWN SDLK_ESCAPE \<Rightarrow> w1\<lparr>gGameIsRunning := False\<rparr>
               | SDL_KEYDOWN SDLK_r \<Rightarrow> reset_game w1
               | _ \<Rightarrow> w1)
     in if gCurrentState w2 = STATE_AIMING \<and> isActive (gBalls w2 ! 0)
        then (case e of SDL_MOUSEBUTTONDOWN mouseX mouseY \<Rightarrow> shoot mouseX mouseY w2 | _ \<Rightarrow> w2)
        else w2)"

definition handle_input :: "Event list \<Rightarrow> World \<Rightarrow> World" where
  "handle_input es w = fold handle_event es w"

subsection \<open>update (lines 245-336)\<close>

text \<open>Steps 1 to 3 (lines 256-270); the flag is whether the ball still moves.\<close>

definition friction_vel :: "Ball \<Rightarrow> Vec2D" where
  "friction_vel b = \<lparr>vec_x = vec_x (vel b) * FRICTION, vec_y = vec_y (vel b) * FRICTION\<rparr>"

definition integrate :: "Ball \<Rightarrow> Ball \<times> bool" where
  "integrate b =
    (let v = friction_vel b;
         p = \<lparr>vec_x = vec_x (pos b) + vec_x v, vec_y = vec_y (pos b) + vec_y v\<rparr>;
         speed = sqrt (vec_x v * vec_x v + vec_y v * vec_y v)
     in if speed < MIN_VELOCITY
        then (b\<lparr>pos := p, vel := \<lparr>vec_x = 0, vec_y = 0\<rparr>\<rparr>, False)
        else (b\<lparr>pos := p, vel := v\<rparr>, True))"

text \<open>Step 4 (lines 272-281): the four cushions, one after the other.\<close>

definition tableX1 :: real where
  "tableX1 = (SCREEN_WIDTH - TABLE_WIDTH) / 2 + BALL_RADIUS"
definition tableY1 :: real where
  "tableY1 = (SCREEN_HEIGHT - TABLE_HEIGHT) / 2 + BALL_RADIUS"
definition tableX2 :: real where
  "tableX2 = tableX1 + TABLE_WIDTH - BALL_DIAMETER"
definition tableY2 :: real where
  "tableY2 = tableY1 + TABLE_HEIGHT - BALL_DIAMETER"

definition bounce_x :: "real \<Rightarrow> Ball \<Rightarrow> Ball" where
  "bounce_x bound b =
    b\<lparr>pos := (pos b)\<lparr>vec_x := bound\<rparr>, vel := (vel b)\<lparr>vec_x := vec_x (vel b) * (- 1)\<rparr>\<rparr>"

definition bounce_y :: "real \<Rightarrow> Ball \<Rightarrow> Ball" where
  "bounce_y bound b =
    b\<lparr>pos := (pos b)\<lparr>vec_y := bound\<rparr>, vel := (vel b)\<lparr>vec_y := vec_y (vel b) * (- 1)\<rparr>\<rparr>"

definition cushions :: "Ball \<Rightarrow> Ball" where
  "cushions b =
    (let b1 = (if vec_x (pos b) < tableX1 then bounce_x tableX1 b else b);
         b2 = (if vec_x (pos b1) > tableX2 then bounce_x tableX2 b1 else b1);
         b3 = (if vec_y (pos b2) < tableY1 then bounce_y tableY1 b2 else b2);
         b4 = (if vec_y (pos b3) > tableY2 then bounce_y tableY2 b3 else b3)
     in b4)"

text \<open>
  Step 5 for one pair (lines 287-314), on ball \<open>i\<close> and ball \<open>j\<close>. The source has no
  test of \<^verbatim>\<open>dist\<close> before it divides by it.
\<close>

definition resolve_pair :: "Ball \<Rightarrow> Ball \<Rightarrow> error + Ball \<times> Ball" where
  "resolve_pair bi bj =
    (let dx = vec_x (pos bj) - vec_x (pos bi);
         dy = vec_y (pos bj) - vec_y (pos bi);
         distSq = dx * dx + dy * dy
     in if distSq < BALL_DIAMETER * BALL_DIAMETER then
          (let dist = sqrt distSq in
           if dist = 0 then Inl DivisionByZero
           else
            (let overlap = (BALL_DIAMETER - dist) / 2;
                 pi = \<lparr>vec_x = vec_x (pos bi) - overlap * (dx / dist),
                       vec_y = vec_y (pos bi) - overlap * (dy / dist)\<rparr>;
                 pj = \<lparr>vec_x = vec_x (pos bj) + overlap * (dx / dist),
                       vec_y = vec_y (pos bj) + overlap * (dy / dist)\<rparr>;
                 nx = dx / dist;
                 ny = dy / dist;
                 p1 = vec_x (vel bi) * nx + vec_y (vel bi) * ny;
                 p2 = vec_x (vel bj) * nx + vec_y (vel bj) * ny;
                 vi = \<lparr>vec_x = vec_x (vel bi) + (p2 - p1) * nx,
                       vec_y = vec_y (vel bi) + (p2 - p1) * ny\<rparr>;
                 vj = \<lparr>vec_x = vec_x (vel bj) + (p1 - p2) * nx,
                       vec_y = vec_y (vel bj) + (p1 - p2) * ny\<rparr>
             in Inr (bi\<lparr>pos := pi, vel := vi\<rparr>, bj\<lparr>pos := pj, vel := vj\<rparr>)))
        else Inr (bi, bj))"

text \<open>One round of the inner loop (lines 284-315): inactive balls are passed over.\<close>

definition collide :: "nat \<Rightarrow> nat \<Rightarrow> Ball list \<Rightarrow> error + Ball list" where
  "collide i j bs =
    (if \<not> isActive (bs ! j) then Inr bs
     else case resolve_pair (bs ! i) (bs ! j) of
            Inl e \<Rightarrow> Inl e
          | Inr (bi, bj) \<Rightarrow> Inr (bs[i := bi, j := bj]))"

primrec collisions :: "nat \<Rightarrow> nat list \<Rightarrow> Ball list \<Rightarrow> error + Ball list" where
  "collisions i [] bs = Inr bs"
| "collisions i (j # js) bs =
    (case collide i j bs of Inl e \<Rightarrow> Inl e | Inr bs' \<Rightarrow> collisions i js bs')"

text \<open>
  Step 6 for one pocket (lines 319-328). The loop has no \<^verbatim>\<open>break\<close>: the ball is tested
  against the pockets that follow as well.
\<close>

definition pocket_check :: "Pocket \<Rightarrow> Ball \<times> GameState \<Rightarrow> Ball \<times> GameState" where
  "pocket_check p bst =
    (case bst of (b, st) \<Rightarrow>
      (let dx = vec_x (pocket_pos p) - vec_x (pos b);
           dy = vec_y (pocket_pos p) - vec_y (pos b);
           dist = sqrt (dx * dx + dy * dy)
       in if dist < POCKET_RADIUS
          then (b\<lparr>isActive := False\<rparr>, if ball_id b = 8 then STATE_GAME_OVER else st)
          else (b, st)))"

text \<open>
  The body of the outer loop for ball \<open>i\<close> (lines 254-329), on the world and the flag
  \<^verbatim>\<open>ballsAreMoving\<close>.
\<close>

definition step_ball :: "nat \<Rightarrow> World \<times> bool \<Rightarrow> error + World \<times> bool" where
  "step_ball i wm =
    (case wm of (w, ballsAreMoving) \<Rightarrow>
      if \<not> isActive (gBalls w ! i) then Inr (w, ballsAreMoving)
      else
        (case integrate (gBalls w ! i) of (b1, moving) \<Rightarrow>
          (case collisions i [Suc i..<NUM_BALLS] ((gBalls w)[i := cushions b1]) of
             Inl e \<Rightarrow> Inl e
           | Inr bs \<Rightarrow>
              (case fold pocket_check (gPockets w) (bs ! i, gCurrentState w) of
                (b, st) \<Rightarrow>
                  Inr (w\<lparr>gBalls := bs[i := b], gCurrentState := st\<rparr>,
                       ballsAreMoving \<or> moving)))))"

primrec simulate :: "nat list \<Rightarrow> World \<times> bool \<Rightarrow> error + World \<times> bool" where
  "simulate [] wm = Inr wm"
| "simulate (i # is) wm =
    (case step_ball i wm of Inl e \<Rightarrow> Inl e | Inr wm' \<Rightarrow> simulate is wm')"

definition update :: "World \<Rightarrow> error + World" where
  "update w =
    (if gCurrentState w \<noteq> STATE_SIMULATING then Inr w
     else case simulate [0..<NUM_BALLS] (w, False) of
            Inl e \<Rightarrow> Inl e
          | Inr (w', ballsAreMoving) \<Rightarrow>
              Inr (if \<not> ballsAreMoving then w'\<lparr>gCurrentState := STATE_AIMING\<rparr> else w'))"

subsection \<open>game_loop (lines 192-199)\<close>

text \<open>
  One element of the list is the events polled in one round of the loop; rendering does
  not change the world.
\<close>

primrec game_loop :: "Event list list \<Rightarrow> World \<Rightarrow> error + World" where
  "game_loop [] w = Inr w"
| "game_loop (es # rounds) w =
    (if \<not> gGameIsRunning w then Inr w
     else case update (handle_input es w) of
            Inl e \<Rightarrow> Inl e
          | Inr w' \<Rightarrow> game_loop rounds w')"

subsection \<open>Notions the properties are stated with\<close>

definition zero_vec :: Vec2D where
  "zero_vec = \<lparr>vec_x = 0, vec_y = 0\<rparr>"

definition dot :: "Vec2D \<Rightarrow> Vec2D \<Rightarrow> real" where
  "dot u v = vec_x u * vec_x v + vec_y u * vec_y v"

definition perp :: "Vec2D \<Rightarrow> Vec2D" where
  "perp v = \<lparr>vec_x = - vec_y v, vec_y = vec_x v\<rparr>"

definition speed :: "Vec2D \<Rightarrow> real" where
  "speed v = sqrt (vec_x v * vec_x v + vec_y v * vec_y v)"

definition centre_dist :: "Ball \<Rightarrow> Ball \<Rightarrow> real" where
  "centre_dist bi bj =
    sqrt ((vec_x (pos bj) - vec_x (pos bi)) * (vec_x (pos bj) - vec_x (pos bi))
        + (vec_y (pos bj) - vec_y (pos bi)) * (vec_y (pos bj) - vec_y (pos bi)))"

text \<open>The test of line 291.\<close>

definition overlapping :: "Ball \<Rightarrow> Ball \<Rightarrow> bool" where
  "overlapping bi bj =
    ((vec_x (pos bj) - vec_x (pos bi)) * (vec_x (pos bj) - vec_x (pos bi))
      + (vec_y (pos bj) - vec_y (pos bi)) * (vec_y (pos bj) - vec_y (pos bi))
      < BALL_DIAMETER * BALL_DIAMETER)"

text \<open>The vector \<^verbatim>\<open>(nx, ny)\<close> of lines 302-303.\<close>

definition collision_normal :: "Ball \<Rightarrow> Ball \<Rightarrow> Vec2D" where
  "collision_normal bi bj =
    \<lparr>vec_x = (vec_x (pos bj) - vec_x (pos bi)) / centre_dist bi bj,
     vec_y = (vec_y (pos bj) - vec_y (pos bi)) / centre_dist bi bj\<rparr>"

text \<open>The rectangle of the four inset bounds of lines 273-276.\<close>

definition in_bounds :: "Vec2D \<Rightarrow> bool" where
  "in_bounds p =
    (tableX1 \<le> vec_x p \<and> vec_x p \<le> tableX2 \<and> tableY1 \<le> vec_y p \<and> vec_y p \<le> tableY2)"

text \<open>No round of the loop holds a key-down event of the key R.\<close>

definition no_reset :: "Event list list \<Rightarrow> bool" where
  "no_reset rounds = list_all (\<lambda>es. SDL_KEYDOWN SDLK_r \<notin> set es) rounds"

subsection \<open>Configurations the properties are tried on\<close>

definition mk_ball :: "nat \<Rightarrow> bool \<Rightarrow> real \<times> real \<Rightarrow> real \<times> real \<Rightarrow> Ball" where
  "mk_ball i a p v =
    \<lparr>ball_id = int i, isActive = a, pos = \<lparr>vec_x = fst p, vec_y = snd p\<rparr>,
     vel = \<lparr>vec_x = fst v, vec_y = snd v\<rparr>, color = colors ! i\<rparr>"

text \<open>A ball that was captured earlier in the game.\<close>

definition potted :: "nat \<Rightarrow> Ball" where
  "potted i = mk_ball i False (65, 40) (0, 0)"

text \<open>
  The globals as the C program starts with them (zero-initialised but for the two
  initialisers of lines 67-68), and the table after \<^verbatim>\<open>initialize\<close> has called
  \<^verbatim>\<open>reset_game\<close>.
\<close>

definition initial_globals :: World where
  "initial_globals =
    \<lparr>gBalls = replicate 16
       \<lparr>ball_id = 0, isActive = False, pos = \<lparr>vec_x = 0, vec_y = 0\<rparr>,
        vel = \<lparr>vec_x = 0, vec_y = 0\<rparr>, color = (0, 0, 0, 0)\<rparr>,
     gPockets = replicate 6 \<lparr>pocket_pos = \<lparr>vec_x = 0, vec_y = 0\<rparr>\<rparr>,
     gCurrentState = STATE_AIMING, gGameIsRunning = True\<rparr>"

definition fresh_table :: World where
  "fresh_table = reset_game initial_globals"

text \<open>
  The end of a game: the cue ball rests, the black ball creeps towards the middle
  pocket of the upper cushion at (500, 25), every other ball is potted.
\<close>

definition endgame :: World where
  "endgame =
    \<lparr>gBalls =
       [mk_ball 0 True (250, 250) (0, 0), potted 1, potted 2, potted 3, potted 4, potted 5,
        potted 6, potted 7, mk_ball 8 True (500, 55) (0, - (1 / 10)), potted 9, potted 10,
        potted 11, potted 12, potted 13, potted 14, potted 15],
     gPockets = setup_pockets, gCurrentState = STATE_SIMULATING, gGameIsRunning = True\<rparr>"

definition endgame_after :: World where
  "endgame_after =
    \<lparr>gBalls =
       [mk_ball 0 True (250, 250) (0, 0), potted 1, potted 2, potted 3, potted 4, potted 5,
        potted 6, potted 7, mk_ball 8 False (500, 54 + 9008 / 10000) (0, 0), potted 9,
        potted 10, potted 11, potted 12, potted 13, potted 14, potted 15],
     gPockets = setup_pockets, gCurrentState = STATE_AIMING, gGameIsRunning = True\<rparr>"

text \<open>
  The opening rack that \<^verbatim>\<open>setup_table\<close> lays out, with the cue ball at \<open>(cue_x, 250)\<close>
  and its velocity \<open>(cue_vx, 0)\<close>.
\<close>

definition rack :: "real \<Rightarrow> real \<Rightarrow> Ball list" where
  "rack cue_x cue_vx =
    [mk_ball 0 True (cue_x, 250) (cue_vx, 0),
     mk_ball 1 True (750, 250) (0, 0),
     mk_ball 2 True (802 + 8 / 10, 220) (0, 0),
     mk_ball 3 True (829 + 2 / 10, 205) (0, 0),
     mk_ball 4 True (855 + 6 / 10, 190) (0, 0),
     mk_ball 5 True (855 + 6 / 10, 310) (0, 0),
     mk_ball 6 True (855 + 6 / 10, 250) (0, 0),
     mk_ball 7 True (829 + 2 / 10, 265) (0, 0),
     mk_ball 8 True (802 + 8 / 10, 250) (0, 0),
     mk_ball 9 True (776 + 4 / 10, 235) (0, 0),
     mk_ball 10 True (829 + 2 / 10, 235) (0, 0),
     mk_ball 11 True (855 + 6 / 10, 220) (0, 0),
     mk_ball 12 True (855 + 6 / 10, 280) (0, 0),
     mk_ball 13 True (829 + 2 / 10, 295) (0, 0),
     mk_ball 14 True (802 + 8 / 10, 280) (0, 0),
     mk_ball 15 True (776 + 4 / 10, 265) (0, 0)]"

definition racked :: "real \<Rightarrow> real \<Rightarrow> GameState \<Rightarrow> World" where
  "racked cue_x cue_vx st =
    \<lparr>gBalls = rack cue_x cue_vx, gPockets = setup_pockets, gCurrentState = st,
     gGameIsRunning = True\<rparr>"

text \<open>The endgame one tick and one accepted shot (pointer at (300, 250)) later.\<close>

definition endgame_shot :: World where
  "endgame_shot =
    \<lparr>gBalls =
       [mk_ball 0 True (242 + 56 / 100, 250) (- (7 + 44 / 100), 0), potted 1, potted 2,
        potted 3, potted 4, potted 5, potted 6, potted 7,
        mk_ball 8 False (500, 54 + 9008 / 10000) (0, 0), potted 9, potted 10, potted 11,
        potted 12, potted 13, potted 14, potted 15],
     gPockets = setup_pockets, gCurrentState = STATE_SIMULATING, gGameIsRunning = True\<rparr>"

text \<open>A finished game: the black ball is potted and the state is \<open>STATE_GAME_OVER\<close>.\<close>

definition finished :: World where
  "finished =
    \<lparr>gBalls =
       [mk_ball 0 True (300, 250) (2, 0), potted 1, potted 2, potted 3, potted 4, potted 5,
        potted 6, potted 7, mk_ball 8 False (500, 50) (0, - 3), potted 9, potted 10,
        potted 11, potted 12, potted 13, potted 14, potted 15],
     gPockets = setup_pockets, gCurrentState = STATE_GAME_OVER, gGameIsRunning = True\<rparr>"

text \<open>
  A fast cue ball runs into the left cushion, where ball 1 rests with its centre on the
  inset bound.
\<close>

definition coincide :: World where
  "coincide =
    \<lparr>gBalls =
       [mk_ball 0 True (150, 250) (- 100, 0), mk_ball 1 True (65, 250) (0, 0), potted 2,
        potted 3, potted 4, potted 5, potted 6, potted 7, potted 8, potted 9, potted 10,
        potted 11, potted 12, potted 13, potted 14, potted 15],
     gPockets = setup_pockets, gCurrentState = STATE_SIMULATING, gGameIsRunning = True\<rparr>"

text \<open>Ball 1 rolls towards the resting cue ball, 40 away.\<close>

definition chase :: World where
  "chase =
    \<lparr>gBalls =
       [mk_ball 0 True (200, 250) (0, 0), mk_ball 1 True (240, 250) (- 20, 0), potted 2,
        potted 3, potted 4, potted 5, potted 6, potted 7, potted 8, potted 9, potted 10,
        potted 11, potted 12, potted 13, potted 14, potted 15],
     gPockets = setup_pockets, gCurrentState = STATE_SIMULATING, gGameIsRunning = True\<rparr>"

definition chase_after :: World where
  "chase_after =
    \<lparr>gBalls =
       [mk_ball 0 True (200, 250) (0, 0),
        mk_ball 1 True (220 + 16 / 100, 250) (- (19 + 84 / 100), 0), potted 2,
        potted 3, potted 4, potted 5, potted 6, potted 7, potted 8, potted 9, potted 10,
        potted 11, potted 12, potted 13, potted 14, potted 15],
     gPockets = setup_pockets, gCurrentState = STATE_SIMULATING, gGameIsRunning = True\<rparr>"

text \<open>
  Ball 1 rests one unit off the left cushion line, ball 2 rests 31 to its right, and the
  cue ball rolls towards them.
\<close>

definition squeeze :: World where
  "squeeze =
    \<lparr>gBalls =
       [mk_ball 0 True (132 + 4 / 10, 250) (- (12 + 5 / 10), 0),
        mk_ball 1 True (66, 250) (0, 0), mk_ball 2 True (97, 250) (0, 0),
        potted 3, potted 4, potted 5, potted 6, potted 7, potted 8, potted 9, potted 10,
        potted 11, potted 12, potted 13, potted 14, potted 15],
     gPockets = setup_pockets, gCurrentState = STATE_SIMULATING, gGameIsRunning = True\<rparr>"

definition squeeze_mid :: World where
  "squeeze_mid =
    \<lparr>gBalls =
       [mk_ball 0 True (123 + 5 / 10, 250) (0, 0),
        mk_ball 1 True (66, 250) (0, 0),
        mk_ball 2 True (93 + 5 / 10, 250) (- (12 + 4 / 10), 0),
        potted 3, potted 4, potted 5, potted 6, potted 7, potted 8, potted 9, potted 10,
        potted 11, potted 12, potted 13, potted 14, potted 15],
     gPockets = setup_pockets, gCurrentState = STATE_SIMULATING, gGameIsRunning = True\<rparr>"

definition squeeze_after :: World where
  "squeeze_after =
    \<lparr>gBalls =
       [mk_ball 0 True (123 + 5 / 10, 250) (0, 0),
        mk_ball 1 True (64 + 75 / 100, 250) (- (12 + 4 / 10), 0),
        mk_ball 2 True (94 + 75 / 100, 250) (0, 0),
        potted 3, potted 4, potted 5, potted 6, potted 7, potted 8, potted 9, potted 10,
        potted 11, potted 12, potted 13, potted 14, potted 15],
     gPockets = setup_pockets, gCurrentState = STATE_SIMULATING, gGameIsRunning = True\<rparr>"

text \<open>
  What a tick could be hoped to hand over to the next one: the sixteen balls with their
  ids and the six pockets as \<^verbatim>\<open>setup_table\<close> made them, every active centre inside the
  inset bounds, no two active balls overlapping.
\<close>

definition tidy :: "World \<Rightarrow> bool" where
  "tidy w =
    (length (gBalls w) = NUM_BALLS
     \<and> map ball_id (gBalls w) = map int [0..<NUM_BALLS]
     \<and> gPockets w = setup_pockets
     \<and> list_all (\<lambda>b. if isActive b then in_bounds (pos b) else True) (gBalls w)
     \<and> list_all (\<lambda>i. list_all (\<lambda>j.
          if isActive (gBalls w ! i) \<and> isActive (gBalls w ! j)
          then \<not> overlapping (gBalls w ! i) (gBalls w ! j) else True)
          [Suc i..<NUM_BALLS]) [0..<NUM_BALLS])"

text \<open>Single balls and pairs.\<close>

definition striker :: Ball where "striker = mk_ball 0 True (100, 250) (5, 0)"
definition target :: Ball where "target = mk_ball 1 True (125, 250) (0, 0)"
definition striker_after :: Ball where
  "striker_after = mk_ball 0 True (97 + 5 / 10, 250) (0, 0)"
definition target_after :: Ball where
  "target_after = mk_ball 1 True (127 + 5 / 10, 250) (5, 0)"

definition skew_i :: Ball where "skew_i = mk_ball 3 True (100, 100) (0, 0)"
definition skew_j :: Ball where "skew_j = mk_ball 4 True (115, 120) (0, 0)"
definition skew_i_after :: Ball where
  "skew_i_after = mk_ball 3 True (98 + 5 / 10, 98) (0, 0)"
definition skew_j_after :: Ball where
  "skew_j_after = mk_ball 4 True (116 + 5 / 10, 122) (0, 0)"

definition corner_ball :: Ball where "corner_ball = mk_ball 5 True (60, 470) (- 3, 4)"

definition stray :: Ball where "stray = mk_ball 3 False (700, 300) (1, 1)"

section \<open>Lemmas\<close>

subsection \<open>Arithmetic\<close>

lemma sqrt_less_MIN: "(sqrt a < 1 / 10) = (a < 1 / 100)"
proof -
  have "(sqrt a < sqrt (1 / 100)) = (a < 1 / 100)" by (rule real_sqrt_less_iff)
  moreover have "sqrt (1 / 100) = 1 / 10" by (rule real_sqrt_unique) (simp_all add: power2_eq_square)
  ultimately show ?thesis by simp
qed

lemma sqrt_less_MINV: "(sqrt a < MIN_VELOCITY) = (a < 1 / 100)"
  by (simp only: MIN_VELOCITY_def sqrt_less_MIN)

lemma sqrt_less_POCKET: "(sqrt a < POCKET_RADIUS) = (a < 900)"
proof -
  have "(sqrt a < sqrt 900) = (a < 900)" by (rule real_sqrt_less_iff)
  moreover have "sqrt 900 = 30" by (rule real_sqrt_unique) (simp_all add: power2_eq_square)
  ultimately show ?thesis by (simp add: POCKET_RADIUS_def)
qed

lemma sqrt_diam: "sqrt (BALL_DIAMETER * BALL_DIAMETER) = BALL_DIAMETER"
  by (simp add: BALL_DIAMETER_def BALL_RADIUS_def)

lemma sqrt_625: "sqrt 625 = 25"
  by (rule real_sqrt_unique) (simp_all add: power2_eq_square)

lemma sqrt_3025_4: "sqrt (3025 / 4) = 55 / 2"
  by (rule real_sqrt_unique) (simp_all add: power2_eq_square)

lemma unit_of_square:
  fixes d :: real
  assumes "d \<noteq> 0" and "d * d = a * a + b * b"
  shows "(a / d) * (a / d) + (b / d) * (b / d) = 1"
proof -
  have "(a / d) * (a / d) + (b / d) * (b / d) = (a * a + b * b) / (d * d)"
    by (simp add: add_divide_distrib)
  also have "\<dots> = (d * d) / (d * d)" by (simp only: assms(2))
  also have "\<dots> = 1" using assms(1) by simp
  finally show ?thesis .
qed

lemma sqrt_square_sum: "sqrt (a * a + b * b) * sqrt (a * a + b * b) = a * a + b * b"
proof -
  have "0 \<le> a * a + b * b" by simp
  then show ?thesis by (rule real_sqrt_mult_self[simplified] | simp)
qed

lemma unit_normal:
  assumes "sqrt (dx * dx + dy * dy) \<noteq> 0"
  shows "(dx / sqrt (dx * dx + dy * dy)) * (dx / sqrt (dx * dx + dy * dy))
       + (dy / sqrt (dx * dx + dy * dy)) * (dy / sqrt (dx * dx + dy * dy)) = 1"
  using assms by (rule unit_of_square) (rule sqrt_square_sum)

lemma swap_normal:
  fixes nx ny ax ay bx bz p1 p2 :: real
  assumes u: "nx * nx + ny * ny = 1"
  defines "p1 \<equiv> ax * nx + ay * ny" and "p2 \<equiv> bx * nx + bz * ny"
  shows "(ax + (p2 - p1) * nx) * nx + (ay + (p2 - p1) * ny) * ny = p2"
    and "(bx + (p1 - p2) * nx) * nx + (bz + (p1 - p2) * ny) * ny = p1"
    and "(ax + (p2 - p1) * nx) * (- ny) + (ay + (p2 - p1) * ny) * nx = ax * (- ny) + ay * nx"
    and "(bx + (p1 - p2) * nx) * (- ny) + (bz + (p1 - p2) * ny) * nx = bx * (- ny) + bz * nx"
proof -
  have "(ax + (p2 - p1) * nx) * nx + (ay + (p2 - p1) * ny) * ny
        = p1 + (p2 - p1) * (nx * nx + ny * ny)"
    unfolding p1_def by (simp add: algebra_simps)
  then show "(ax + (p2 - p1) * nx) * nx + (ay + (p2 - p1) * ny) * ny = p2"
    by (simp add: u)
  have "(bx + (p1 - p2) * nx) * nx + (bz + (p1 - p2) * ny) * ny
        = p2 + (p1 - p2) * (nx * nx + ny * ny)"
    unfolding p2_def by (simp add: algebra_simps)
  then show "(bx + (p1 - p2) * nx) * nx + (bz + (p1 - p2) * ny) * ny = p1"
    by (simp add: u)
  show "(ax + (p2 - p1) * nx) * (- ny) + (ay + (p2 - p1) * ny) * nx = ax * (- ny) + ay * nx"
    by (simp add: algebra_simps)
  show "(bx + (p1 - p2) * nx) * (- ny) + (bz + (p1 - p2) * ny) * nx = bx * (- ny) + bz * nx"
    by (simp add: algebra_simps)
qed

lemma head_on_stop:
  fixes nx ny :: real
  assumes u: "nx * nx + ny * ny = 1" and par: "ax * (- ny) + ay * nx = 0"
  shows "ax + (0 - (ax * nx + ay * ny)) * nx = 0"
    and "ay + (0 - (ax * nx + ay * ny)) * ny = 0"
    and "(ax * nx + ay * ny) * nx = ax"
    and "(ax * nx + ay * ny) * ny = ay"
proof -
  have e: "ay * nx = ax * ny" using par by simp
  have "(ax * nx + ay * ny) * nx = ax * (nx * nx) + (ay * nx) * ny" by (simp add: algebra_simps)
  also have "\<dots> = ax * (nx * nx + ny * ny)" unfolding e by (simp add: algebra_simps)
  finally show x: "(ax * nx + ay * ny) * nx = ax" by (simp add: u)
  have "(ax * nx + ay * ny) * ny = (ax * ny) * nx  + ay * (ny * ny)" by (simp add: algebra_simps)
  also have "\<dots> = ay * (nx * nx + ny * ny)" unfolding e[symmetric] by (simp add: algebra_simps)
  finally show y: "(ax * nx + ay * ny) * ny = ay" by (simp add: u)
  show "ax + (0 - (ax * nx + ay * ny)) * nx = 0" using x by (simp add: algebra_simps)
  show "ay + (0 - (ax * nx + ay * ny)) * ny = 0" using y by (simp add: algebra_simps)
qed

subsection \<open>One pair of balls\<close>

lemma resolve_pair_separate:
  assumes "\<not> overlapping bi bj"
  shows "resolve_pair bi bj = Inr (bi, bj)"
  using assms by (simp add: resolve_pair_def overlapping_def Let_def)

lemma resolve_pair_overlap:
  assumes ov: "overlapping bi bj" and ok: "resolve_pair bi bj = Inr (bi', bj')"
  shows "centre_dist bi bj \<noteq> 0"
    and "pos bi' =
          \<lparr>vec_x = vec_x (pos bi)
              - (BALL_DIAMETER - centre_dist bi bj) / 2 * vec_x (collision_normal bi bj),
           vec_y = vec_y (pos bi)
              - (BALL_DIAMETER - centre_dist bi bj) / 2 * vec_y (collision_normal bi bj)\<rparr>"
    and "pos bj' =
          \<lparr>vec_x = vec_x (pos bj)
              + (BALL_DIAMETER - centre_dist bi bj) / 2 * vec_x (collision_normal bi bj),
           vec_y = vec_y (pos bj)
              + (BALL_DIAMETER - centre_dist bi bj) / 2 * vec_y (collision_normal bi bj)\<rparr>"
    and "vel bi' =
          \<lparr>vec_x = vec_x (vel bi)
              + (dot (vel bj) (collision_normal bi bj) - dot (vel bi) (collision_normal bi bj))
                * vec_x (collision_normal bi bj),
           vec_y = vec_y (vel bi)
              + (dot (vel bj) (collision_normal bi bj) - dot (vel bi) (collision_normal bi bj))
                * vec_y (collision_normal bi bj)\<rparr>"
    and "vel bj' =
          \<lparr>vec_x = vec_x (vel bj)
              + (dot (vel bi) (collision_normal bi bj) - dot (vel bj) (collision_normal bi bj))
                * vec_x (collision_normal bi bj),
           vec_y = vec_y (vel bj)
              + (dot (vel bi) (collision_normal bi bj) - dot (vel bj) (collision_normal bi bj))
                * vec_y (collision_normal bi bj)\<rparr>"
    and "ball_id bi' = ball_id bi" and "ball_id bj' = ball_id bj"
    and "isActive bi' = isActive bi" and "isActive bj' = isActive bj"
proof -
  show nz: "centre_dist bi bj \<noteq> 0"
    using ov ok by (auto simp: resolve_pair_def overlapping_def centre_dist_def Let_def)
  have eq: "Inr (bi', bj') = resolve_pair bi bj" using ok by simp
  have both: "bi' = fst (projr (resolve_pair bi bj))" "bj' = snd (projr (resolve_pair bi bj))"
    using ok by simp_all
  from nz have nz': "sqrt ((vec_x (pos bj) - vec_x (pos bi)) * (vec_x (pos bj) - vec_x (pos bi))
        + (vec_y (pos bj) - vec_y (pos bi)) * (vec_y (pos bj) - vec_y (pos bi))) \<noteq> 0"
    by (simp add: centre_dist_def)
  from ov have ov': "(vec_x (pos bj) - vec_x (pos bi)) * (vec_x (pos bj) - vec_x (pos bi))
      + (vec_y (pos bj) - vec_y (pos bi)) * (vec_y (pos bj) - vec_y (pos bi))
      < BALL_DIAMETER * BALL_DIAMETER" by (simp add: overlapping_def)
  have unf: "resolve_pair bi bj = Inr
     (bi\<lparr>pos := \<lparr>vec_x = vec_x (pos bi)
              - (BALL_DIAMETER - centre_dist bi bj) / 2 * vec_x (collision_normal bi bj),
           vec_y = vec_y (pos bi)
              - (BALL_DIAMETER - centre_dist bi bj) / 2 * vec_y (collision_normal bi bj)\<rparr>,
         vel := \<lparr>vec_x = vec_x (vel bi)
              + (dot (vel bj) (collision_normal bi bj) - dot (vel bi) (collision_normal bi bj))
                * vec_x (collision_normal bi bj),
           vec_y = vec_y (vel bi)
              + (dot (vel bj) (collision_normal bi bj) - dot (vel bi) (collision_normal bi bj))
                * vec_y (collision_normal bi bj)\<rparr>\<rparr>,
      bj\<lparr>pos := \<lparr>vec_x = vec_x (pos bj)
              + (BALL_DIAMETER - centre_dist bi bj) / 2 * vec_x (collision_normal bi bj),
           vec_y = vec_y (pos bj)
              + (BALL_DIAMETER - centre_dist bi bj) / 2 * vec_y (collision_normal bi bj)\<rparr>,
         vel := \<lparr>vec_x = vec_x (vel bj)
              + (dot (vel bi) (collision_normal bi bj) - dot (vel bj) (collision_normal bi bj))
                * vec_x (collision_normal bi bj),
           vec_y = vec_y (vel bj)
              + (dot (vel bi) (collision_normal bi bj) - dot (vel bj) (collision_normal bi bj))
                * vec_y (collision_normal bi bj)\<rparr>\<rparr>)"
    unfolding resolve_pair_def Let_def collision_normal_def dot_def centre_dist_def
    using nz' ov' by simp
  show "pos bi' = \<lparr>vec_x = vec_x (pos bi)
              - (BALL_DIAMETER - centre_dist bi bj) / 2 * vec_x (collision_normal bi bj),
           vec_y = vec_y (pos bi)
              - (BALL_DIAMETER - centre_dist bi bj) / 2 * vec_y (collision_normal bi bj)\<rparr>"
    unfolding both unf by simp
  show "pos bj' = \<lparr>vec_x = vec_x (pos bj)
              + (BALL_DIAMETER - centre_dist bi bj) / 2 * vec_x (collision_normal bi bj),
           vec_y = vec_y (pos bj)
              + (BALL_DIAMETER - centre_dist bi bj) / 2 * vec_y (collision_normal bi bj)\<rparr>"
    unfolding both unf by simp
  show "vel bi' = \<lparr>vec_x = vec_x (vel bi)
              + (dot (vel bj) (collision_normal bi bj) - dot (vel bi) (collision_normal bi bj))
                * vec_x (collision_normal bi bj),
           vec_y = vec_y (vel bi)
              + (dot (vel bj) (collision_normal bi bj) - dot (vel bi) (collision_normal bi bj))
                * vec_y (collision_normal bi bj)\<rparr>"
    unfolding both unf by simp
  show "vel bj' = \<lparr>vec_x = vec_x (vel bj)
              + (dot (vel bi) (collision_normal bi bj) - dot (vel bj) (collision_normal bi bj))
                * vec_x (collision_normal bi bj),
           vec_y = vec_y (vel bj)
              + (dot (vel bi) (collision_normal bi bj) - dot (vel bj) (collision_normal bi bj))
                * vec_y (collision_normal bi bj)\<rparr>"
    unfolding both unf by simp
  show "ball_id bi' = ball_id bi" "ball_id bj' = ball_id bj"
    "isActive bi' = isActive bi" "isActive bj' = isActive bj"
    unfolding both unf by simp_all
qed

lemma normal_unit:
  assumes "centre_dist bi bj \<noteq> 0"
  shows "vec_x (collision_normal bi bj) * vec_x (collision_normal bi bj)
       + vec_y (collision_normal bi bj) * vec_y (collision_normal bi bj) = 1"
proof -
  from assms have "sqrt ((vec_x (pos bj) - vec_x (pos bi)) * (vec_x (pos bj) - vec_x (pos bi))
        + (vec_y (pos bj) - vec_y (pos bi)) * (vec_y (pos bj) - vec_y (pos bi))) \<noteq> 0"
    by (simp add: centre_dist_def)
  from unit_normal[OF this] show ?thesis
    by (simp add: collision_normal_def centre_dist_def)
qed

lemma normal_scaled:
  assumes "centre_dist bi bj \<noteq> 0"
  shows "vec_x (pos bj) - vec_x (pos bi) = centre_dist bi bj * vec_x (collision_normal bi bj)"
    and "vec_y (pos bj) - vec_y (pos bi) = centre_dist bi bj * vec_y (collision_normal bi bj)"
  using assms by (simp_all add: collision_normal_def)

lemma resolve_pair_error_iff:
  "(resolve_pair bi bj = Inl DivisionByZero) = (pos bi = pos bj)"
proof -
  let ?dx = "vec_x (pos bj) - vec_x (pos bi)"
  let ?dy = "vec_y (pos bj) - vec_y (pos bi)"
  have z: "(sqrt (?dx * ?dx + ?dy * ?dy) = 0) = (?dx = 0 \<and> ?dy = 0)"
    by (simp add: sum_squares_eq_zero_iff)
  have p: "(pos bi = pos bj) = (?dx = 0 \<and> ?dy = 0)"
    by (auto intro: Vec2D.equality)
  have d: "(0::real) < BALL_DIAMETER * BALL_DIAMETER"
    by (simp add: BALL_DIAMETER_def BALL_RADIUS_def)
  show ?thesis
  proof (cases "?dx = 0 \<and> ?dy = 0")
    case True
    with d p show ?thesis by (simp add: resolve_pair_def Let_def)
  next
    case False
    with z have "sqrt (?dx * ?dx + ?dy * ?dy) \<noteq> 0" by simp
    with False p show ?thesis by (simp add: resolve_pair_def Let_def)
  qed
qed

lemma resolve_pair_active:
  "resolve_pair bi bj = Inr (bi', bj') \<Longrightarrow> isActive bi' = isActive bi \<and> isActive bj' = isActive bj"
  by (cases "overlapping bi bj")
     (auto simp: resolve_pair_separate dest: resolve_pair_overlap(8,9))

subsection \<open>Evaluating a tick on a given table\<close>

lemma list_update_numeral:
  "(x # xs)[numeral n := v] = x # xs[pred_numeral n := v]"
  by (simp add: numeral_eq_Suc)

lemma balls_upt: "[0..<NUM_BALLS] = [0, 1, 2, 3, 4, 5, 6, 7, 8, 9, 10, 11, 12, 13, 14, 15]"
  unfolding NUM_BALLS_def by (simp add: upt_rec)

lemmas geometry =
  SCREEN_WIDTH_def SCREEN_HEIGHT_def TABLE_WIDTH_def TABLE_HEIGHT_def BALL_RADIUS_def
  BALL_DIAMETER_def FRICTION_def tableX_def tableY_def
  tableX1_def tableX2_def tableY1_def tableY2_def

lemmas tick_eval =
  step_ball_def integrate_def friction_vel_def cushions_def bounce_x_def bounce_y_def
  collide_def resolve_pair_def pocket_check_def setup_pockets_def mk_ball_def potted_def
  geometry Let_def list_update_numeral sqrt_less_MINV sqrt_less_POCKET upt_rec NUM_BALLS_def

lemma rack_cells_eq:
  "zip rack_cells rackOrder =
    [((0, 0), 1), ((1, 0), 9), ((1, 1), 15), ((2, 0), 2), ((2, 1), 8), ((2, 2), 14),
     ((3, 0), 3), ((3, 1), 10), ((3, 2), 7), ((3, 3), 13),
     ((4, 0), 4), ((4, 1), 11), ((4, 2), 6), ((4, 3), 12), ((4, 4), 5)]"
  by (simp add: rack_cells_def rackOrder_def upt_rec)

lemma fresh_table_eq: "fresh_table = racked 250 0 STATE_AIMING"
  unfolding fresh_table_def reset_game_def setup_table_def initial_globals_def racked_def rack_def
    rack_cells_eq
  by (simp add: Let_def balls_upt init_ball_def place_ball_def mk_ball_def colors_def
      startX_def startY_def ball_offset_def geometry list_update_numeral)

lemma simulate_idle:
  "\<forall>j\<in>set js. step_ball j wm = Inr wm \<Longrightarrow> simulate js wm = Inr wm"
  by (induction js) simp_all

lemma object_balls: "{i. 0 < i \<and> i < NUM_BALLS} = {1, 2, 3, 4, 5, 6, 7, 8, 9, 10, 11, 12, 13, 14, 15}"
  unfolding NUM_BALLS_def by auto arith

lemma rack_rest:
  assumes "0 < i" and "i < NUM_BALLS"
  shows "vel (rack cue_x cue_vx ! i) = zero_vec"
proof -
  from assms have "i \<in> {1, 2, 3, 4, 5, 6, 7, 8, 9, 10, 11, 12, 13, 14, 15}"
    using object_balls by blast
  then show ?thesis by (auto simp: rack_def mk_ball_def zero_vec_def)
qed

subsection \<open>Inactive balls are passed over\<close>

lemma collide_keeps:
  assumes "\<not> isActive (bs ! k)" and "i \<noteq> k" and "collide i j bs = Inr bs'"
  shows "bs' ! k = bs ! k"
proof (cases "isActive (bs ! j)")
  case False
  with assms(3) show ?thesis by (simp add: collide_def)
next
  case True
  with assms(1) have "j \<noteq> k" by auto
  with assms(2,3) True show ?thesis
    by (auto simp: collide_def split: sum.splits)
qed

lemma collisions_keeps:
  "\<not> isActive (bs ! k) \<Longrightarrow> i \<noteq> k \<Longrightarrow> collisions i js bs = Inr bs' \<Longrightarrow> bs' ! k = bs ! k"
proof (induction js arbitrary: bs)
  case Nil
  then show ?case by simp
next
  case (Cons j js)
  from Cons.prems(3) obtain bs1 where c: "collide i j bs = Inr bs1"
    and r: "collisions i js bs1 = Inr bs'"
    by (auto split: sum.splits)
  have k1: "bs1 ! k = bs ! k" by (rule collide_keeps[OF Cons.prems(1,2) c])
  with Cons.prems(1) have "\<not> isActive (bs1 ! k)" by simp
  from Cons.IH[OF this Cons.prems(2) r] k1 show ?case by simp
qed

lemma step_ball_keeps:
  assumes "\<not> isActive (gBalls w ! k)" and "step_ball i (w, m) = Inr (w', m')"
  shows "gBalls w' ! k = gBalls w ! k"
proof (cases "isActive (gBalls w ! i)")
  case False
  with assms(2) show ?thesis by (simp add: step_ball_def)
next
  case True
  with assms(1) have ik: "i \<noteq> k" by auto
  obtain b1 mv where int: "integrate (gBalls w ! i) = (b1, mv)" by (cases "integrate (gBalls w ! i)")
  from assms(2) True int obtain bs where
    col: "collisions i [Suc i..<NUM_BALLS] ((gBalls w)[i := cushions b1]) = Inr bs"
    by (auto simp: step_ball_def split: sum.splits prod.splits)
  obtain b st where pk: "fold pocket_check (gPockets w) (bs ! i, gCurrentState w) = (b, st)"
    by (cases "fold pocket_check (gPockets w) (bs ! i, gCurrentState w)")
  from assms(2) True int col pk have w': "gBalls w' = bs[i := b]"
    by (auto simp: step_ball_def)
  have pre: "\<not> isActive ((gBalls w)[i := cushions b1] ! k)" using assms(1) ik by simp
  from collisions_keeps[OF pre ik col] ik have "bs ! k = gBalls w ! k" by simp
  with w' ik show ?thesis by simp
qed

lemma simulate_keeps:
  "\<not> isActive (gBalls w ! k) \<Longrightarrow> simulate is (w, m) = Inr (w', m')
    \<Longrightarrow> gBalls w' ! k = gBalls w ! k"
proof (induction "is" arbitrary: w m)
  case Nil
  then show ?case by simp
next
  case (Cons i "is")
  from Cons.prems(2) obtain w1 m1 where s: "step_ball i (w, m) = Inr (w1, m1)"
    and r: "simulate is (w1, m1) = Inr (w', m')"
    by (auto split: sum.splits)
  have k1: "gBalls w1 ! k = gBalls w ! k" by (rule step_ball_keeps[OF Cons.prems(1) s])
  with Cons.prems(1) have "\<not> isActive (gBalls w1 ! k)" by simp
  from Cons.IH[OF this r] k1 show ?case by simp
qed

lemma update_keeps:
  assumes "\<not> isActive (gBalls w ! k)" and "update w = Inr w'"
  shows "gBalls w' ! k = gBalls w ! k"
proof (cases "gCurrentState w = STATE_SIMULATING")
  case False
  with assms(2) show ?thesis by (simp add: update_def)
next
  case True
  with assms(2) obtain w1 m1 where s: "simulate [0..<NUM_BALLS] (w, False) = Inr (w1, m1)"
    and w': "gBalls w' = gBalls w1"
    by (auto simp: update_def split: sum.splits prod.splits if_splits)
  from simulate_keeps[OF assms(1) s] w' show ?thesis by simp
qed

lemma handle_event_keeps:
  assumes "\<not> isActive (gBalls w ! k)" and "e \<noteq> SDL_KEYDOWN SDLK_r"
  shows "gBalls (handle_event e w) ! k = gBalls w ! k"
proof (cases e)
  case SDL_QUIT
  then show ?thesis by (simp add: handle_event_def Let_def)
next
  case (SDL_KEYDOWN key)
  with assms(2) show ?thesis by (cases key) (simp_all add: handle_event_def Let_def)
next
  case (SDL_MOUSEBUTTONDOWN mx my)
  show ?thesis
  proof (cases "gCurrentState w = STATE_AIMING \<and> isActive (gBalls w ! 0)")
    case True
    have "k \<noteq> 0"
    proof
      assume "k = 0"
      with assms(1) True show False by simp
    qed
    with True SDL_MOUSEBUTTONDOWN show ?thesis
      by (simp add: handle_event_def shoot_def Let_def)
  next
    case False
    with SDL_MOUSEBUTTONDOWN show ?thesis by (auto simp: handle_event_def Let_def)
  qed
next
  case SDL_OTHER
  then show ?thesis by (simp add: handle_event_def Let_def)
qed

lemma handle_input_keeps:
  "\<not> isActive (gBalls w ! k) \<Longrightarrow> SDL_KEYDOWN SDLK_r \<notin> set es
    \<Longrightarrow> gBalls (handle_input es w) ! k = gBalls w ! k"
proof (induction es arbitrary: w)
  case Nil
  then show ?case by (simp add: handle_input_def)
next
  case (Cons e es)
  from Cons.prems(2) have ne: "e \<noteq> SDL_KEYDOWN SDLK_r" and rest: "SDL_KEYDOWN SDLK_r \<notin> set es"
    by auto
  have k1: "gBalls (handle_event e w) ! k = gBalls w ! k"
    by (rule handle_event_keeps[OF Cons.prems(1) ne])
  with Cons.prems(1) have "\<not> isActive (gBalls (handle_event e w) ! k)" by simp
  from Cons.IH[OF this rest] k1 show ?case by (simp add: handle_input_def)
qed

lemma game_loop_keeps:
  "\<not> isActive (gBalls w ! k) \<Longrightarrow> no_reset rounds \<Longrightarrow> game_loop rounds w = Inr w'
    \<Longrightarrow> gBalls w' ! k = gBalls w ! k"
proof (induction rounds arbitrary: w)
  case Nil
  then show ?case by simp
next
  case (Cons es rounds)
  show ?case
  proof (cases "gGameIsRunning w")
    case False
    with Cons.prems(3) show ?thesis by simp
  next
    case True
    from Cons.prems(2) have nr: "SDL_KEYDOWN SDLK_r \<notin> set es" and rest: "no_reset rounds"
      by (simp_all add: no_reset_def)
    from Cons.prems(3) True obtain w1 where u: "update (handle_input es w) = Inr w1"
      and r: "game_loop rounds w1 = Inr w'"
      by (auto split: sum.splits)
    have k0: "gBalls (handle_input es w) ! k = gBalls w ! k"
      by (rule handle_input_keeps[OF Cons.prems(1) nr])
    with Cons.prems(1) have "\<not> isActive (gBalls (handle_input es w) ! k)" by simp
    from update_keeps[OF this u] k0 have k1: "gBalls w1 ! k = gBalls w ! k" by simp
    with Cons.prems(1) have "\<not> isActive (gBalls w1 ! k)" by simp
    from Cons.IH[OF this rest r] k1 show ?thesis by simp
  qed
qed

lemma collide_length: "collide i j bs = Inr bs' \<Longrightarrow> length bs' = length bs"
  by (auto simp: collide_def split: if_splits sum.splits)

lemma collide_frame:
  assumes ik: "i \<noteq> k" and k: "k < length bs" and off: "\<not> isActive (bs ! k)" "\<not> isActive b'"
  shows "collide i j (bs[k := b']) = map_sum id (\<lambda>bs'. bs'[k := b']) (collide i j bs)"
proof (cases "j = k")
  case True
  with k off show ?thesis by (simp add: collide_def)
next
  case False
  with ik have nth: "bs[k := b'] ! j = bs ! j" "bs[k := b'] ! i = bs ! i" by simp_all
  have sw: "bs[k := b', i := bi, j := bj] = bs[i := bi, j := bj, k := b']" for bi bj
    using ik False by (metis list_update_swap)
  show ?thesis unfolding collide_def nth
    by (simp add: sw split: sum.splits)
qed

lemma collisions_length: "collisions i js bs = Inr bs' \<Longrightarrow> length bs' = length bs"
proof (induction js arbitrary: bs)
  case Nil
  then show ?case by simp
next
  case (Cons j js)
  then show ?case by (auto split: sum.splits dest: collide_length)
qed

lemma collisions_frame:
  "i \<noteq> k \<Longrightarrow> k < length bs \<Longrightarrow> \<not> isActive (bs ! k) \<Longrightarrow> \<not> isActive b'
    \<Longrightarrow> collisions i js (bs[k := b']) = map_sum id (\<lambda>bs'. bs'[k := b']) (collisions i js bs)"
proof (induction js arbitrary: bs)
  case Nil
  then show ?case by simp
next
  case (Cons j js)
  note fr = collide_frame[OF Cons.prems(1,2,3,4), of j]
  show ?case
  proof (cases "collide i j bs")
    case (Inl e)
    with fr show ?thesis by simp
  next
    case (Inr bs1)
    have len: "k < length bs1" using collide_length[OF Inr] Cons.prems(2) by simp
    have off: "\<not> isActive (bs1 ! k)"
      using collide_keeps[OF Cons.prems(3,1) Inr] Cons.prems(3) by simp
    from Cons.IH[OF Cons.prems(1) len off Cons.prems(4)] fr Inr show ?thesis by simp
  qed
qed

lemma step_ball_length:
  "step_ball i (w, m) = Inr (w', m') \<Longrightarrow> length (gBalls w') = length (gBalls w)"
  by (auto simp: step_ball_def split: if_splits sum.splits prod.splits dest: collisions_length)

lemma step_ball_frame:
  assumes k: "k < length (gBalls w)" and off: "\<not> isActive (gBalls w ! k)" "\<not> isActive b'"
  shows "step_ball i (w\<lparr>gBalls := (gBalls w)[k := b']\<rparr>, m)
      = map_sum id (\<lambda>(w', m'). (w'\<lparr>gBalls := (gBalls w')[k := b']\<rparr>, m')) (step_ball i (w, m))"
proof (cases "i = k")
  case True
  with k off show ?thesis by (simp add: step_ball_def)
next
  case ik: False
  show ?thesis
  proof (cases "isActive (gBalls w ! i)")
    case False
    with ik show ?thesis by (simp add: step_ball_def)
  next
    case True
    obtain b1 mv where int: "integrate (gBalls w ! i) = (b1, mv)"
      by (cases "integrate (gBalls w ! i)")
    let ?bs = "(gBalls w)[i := cushions b1]"
    have sw: "(gBalls w)[k := b', i := cushions b1] = ?bs[k := b']"
      using ik by (metis list_update_swap)
    have k2: "k < length ?bs" using k by simp
    have off2: "\<not> isActive (?bs ! k)" using off(1) ik by simp
    note fr = collisions_frame[OF ik k2 off2 off(2), of "[Suc i..<NUM_BALLS]"]
    show ?thesis
    proof (cases "collisions i [Suc i..<NUM_BALLS] ?bs")
      case (Inl e)
      with fr True ik int sw show ?thesis by (simp add: step_ball_def)
    next
      case (Inr bs)
      obtain b st where pk: "fold pocket_check (gPockets w) (bs ! i, gCurrentState w) = (b, st)"
        by (cases "fold pocket_check (gPockets w) (bs ! i, gCurrentState w)")
      have sw2: "bs[k := b', i := b] = bs[i := b, k := b']"
        using ik by (metis list_update_swap)
      from fr Inr True ik int sw pk sw2 show ?thesis by (simp add: step_ball_def)
    qed
  qed
qed

lemma simulate_frame:
  "k < length (gBalls w) \<Longrightarrow> \<not> isActive (gBalls w ! k) \<Longrightarrow> \<not> isActive b'
    \<Longrightarrow> simulate is (w\<lparr>gBalls := (gBalls w)[k := b']\<rparr>, m)
      = map_sum id (\<lambda>(w', m'). (w'\<lparr>gBalls := (gBalls w')[k := b']\<rparr>, m')) (simulate is (w, m))"
proof (induction "is" arbitrary: w m)
  case Nil
  then show ?case by simp
next
  case (Cons i "is")
  note fr = step_ball_frame[OF Cons.prems, of i m]
  show ?case
  proof (cases "step_ball i (w, m)")
    case (Inl e)
    with fr show ?thesis by simp
  next
    case (Inr wm1)
    obtain w1 m1 where wm1: "wm1 = (w1, m1)" by (cases wm1)
    have len: "k < length (gBalls w1)"
      using step_ball_length[OF Inr[unfolded wm1]] Cons.prems(1) by simp
    have off: "\<not> isActive (gBalls w1 ! k)"
      using step_ball_keeps[OF Cons.prems(2) Inr[unfolded wm1]] Cons.prems(2) by simp
    from Cons.IH[OF len off Cons.prems(3), of m1] fr Inr wm1 show ?thesis by simp
  qed
qed

lemma update_frame:
  assumes "k < length (gBalls w)" and "\<not> isActive (gBalls w ! k)" and "\<not> isActive b'"
  shows "update (w\<lparr>gBalls := (gBalls w)[k := b']\<rparr>)
      = map_sum id (\<lambda>w'. w'\<lparr>gBalls := (gBalls w')[k := b']\<rparr>) (update w)"
proof (cases "gCurrentState w = STATE_SIMULATING")
  case False
  then show ?thesis by (simp add: update_def)
next
  case True
  note fr = simulate_frame[OF assms, of "[0..<NUM_BALLS]" False]
  show ?thesis
  proof (cases "simulate [0..<NUM_BALLS] (w, False)")
    case (Inl e)
    with fr True show ?thesis by (simp add: update_def)
  next
    case (Inr wm1)
    obtain w1 m1 where wm1: "wm1 = (w1, m1)" by (cases wm1)
    from fr Inr wm1 True show ?thesis by (simp add: update_def)
  qed
qed

subsection \<open>The flag ballsAreMoving\<close>

lemma integrate_slow:
  assumes "speed (friction_vel b) < MIN_VELOCITY"
  shows "vel (fst (integrate b)) = zero_vec \<and> \<not> snd (integrate b)"
  using assms by (simp add: integrate_def speed_def Let_def zero_vec_def)

lemma step_ball_flag:
  assumes "step_ball i (w, m) = Inr (w', m')"
    and "isActive (gBalls w ! i) \<Longrightarrow> speed (friction_vel (gBalls w ! i)) < MIN_VELOCITY"
  shows "m' = m"
proof (cases "isActive (gBalls w ! i)")
  case False
  with assms(1) show ?thesis by (simp add: step_ball_def)
next
  case True
  from integrate_slow[OF assms(2)[OF True]] have "\<not> snd (integrate (gBalls w ! i))" by simp
  with assms(1) True show ?thesis
    by (auto simp: step_ball_def split: sum.splits prod.splits)
qed

lemma simulate_append:
  "simulate (xs @ ys) wm =
    (case simulate xs wm of Inl e \<Rightarrow> Inl e | Inr wm' \<Rightarrow> simulate ys wm')"
  by (induction xs arbitrary: wm) (simp_all split: sum.splits)

lemma simulate_flag:
  assumes slow: "\<And>i wi mi. i < n \<Longrightarrow> simulate [0..<i] (w, m) = Inr (wi, mi)
      \<Longrightarrow> isActive (gBalls wi ! i) \<Longrightarrow> speed (friction_vel (gBalls wi ! i)) < MIN_VELOCITY"
    and run: "simulate [0..<n] (w, m) = Inr (w', m')"
  shows "m' = m"
  using slow run
proof (induction n arbitrary: w' m')
  case 0
  then show ?case by simp
next
  case (Suc n)
  from Suc.prems(2) obtain wn mn where pre: "simulate [0..<n] (w, m) = Inr (wn, mn)"
    and st: "step_ball n (wn, mn) = Inr (w', m')"
    by (auto simp: simulate_append split: sum.splits)
  have "mn = m"
  proof (rule Suc.IH[OF _ pre])
    fix i wi mi
    assume "i < n" "simulate [0..<i] (w, m) = Inr (wi, mi)" "isActive (gBalls wi ! i)"
    then show "speed (friction_vel (gBalls wi ! i)) < MIN_VELOCITY"
      using Suc.prems(1)[of i wi mi] by simp
  qed
  moreover have "m' = mn"
    by (rule step_ball_flag[OF st]) (rule Suc.prems(1)[OF _ pre], simp)
  ultimately show ?case by simp
qed

subsection \<open>The state STATE_GAME_OVER\<close>

lemma handle_event_over:
  assumes "gCurrentState w = STATE_GAME_OVER" and "e \<noteq> SDL_KEYDOWN SDLK_r"
  shows "gCurrentState (handle_event e w) = STATE_GAME_OVER \<and> gBalls (handle_event e w) = gBalls w"
proof (cases e)
  case (SDL_KEYDOWN key)
  with assms show ?thesis by (cases key) (simp_all add: handle_event_def Let_def)
qed (use assms in \<open>simp_all add: handle_event_def Let_def\<close>)

lemma handle_input_over:
  "gCurrentState w = STATE_GAME_OVER \<Longrightarrow> SDL_KEYDOWN SDLK_r \<notin> set es
    \<Longrightarrow> gCurrentState (handle_input es w) = STATE_GAME_OVER \<and> gBalls (handle_input es w) = gBalls w"
proof (induction es arbitrary: w)
  case Nil
  then show ?case by (simp add: handle_input_def)
next
  case (Cons e es)
  from Cons.prems(2) have ne: "e \<noteq> SDL_KEYDOWN SDLK_r" and rest: "SDL_KEYDOWN SDLK_r \<notin> set es"
    by auto
  note h = handle_event_over[OF Cons.prems(1) ne]
  from Cons.IH[of "handle_event e w"] h rest show ?case by (simp add: handle_input_def)
qed

lemma update_over: "gCurrentState w = STATE_GAME_OVER \<Longrightarrow> update w = Inr w"
  by (simp add: update_def)

lemma game_loop_over:
  "gCurrentState w = STATE_GAME_OVER \<Longrightarrow> no_reset rounds
    \<Longrightarrow> \<exists>w'. game_loop rounds w = Inr w' \<and> gCurrentState w' = STATE_GAME_OVER \<and> gBalls w' = gBalls w"
proof (induction rounds arbitrary: w)
  case Nil
  then show ?case by simp
next
  case (Cons es rounds)
  show ?case
  proof (cases "gGameIsRunning w")
    case False
    with Cons.prems(1) show ?thesis by simp
  next
    case True
    from Cons.prems(2) have nr: "SDL_KEYDOWN SDLK_r \<notin> set es" and rest: "no_reset rounds"
      by (simp_all add: no_reset_def)
    note h = handle_input_over[OF Cons.prems(1) nr]
    from h have u: "update (handle_input es w) = Inr (handle_input es w)" by (simp add: update_over)
    from Cons.IH[of "handle_input es w"] h rest
    obtain w' where "game_loop rounds (handle_input es w) = Inr w'"
      "gCurrentState w' = STATE_GAME_OVER" "gBalls w' = gBalls w" by auto
    with True u show ?thesis by simp
  qed
qed

subsection \<open>Ticks of the tables above\<close>

lemma coincide_tick: "update coincide = Inl DivisionByZero"
  unfolding update_def coincide_def
  by (simp add: tick_eval)

lemma chase_tick: "update chase = Inr chase_after"
  unfolding update_def chase_def chase_after_def
  by (simp add: tick_eval)

lemma creeping_step0:
  "step_ball 0 (racked 250 (1 / 10) STATE_SIMULATING, False)
     = Inr (racked (250 + 992 / 10000) 0 STATE_SIMULATING, False)"
  unfolding racked_def rack_def by (simp add: tick_eval)

lemma crept_idle:
  "\<forall>i\<in>{1, 2, 3, 4, 5, 6, 7, 8, 9, 10, 11, 12, 13, 14, 15}.
     step_ball i (racked (250 + 992 / 10000) 0 STATE_SIMULATING, False)
       = Inr (racked (250 + 992 / 10000) 0 STATE_SIMULATING, False)"
  unfolding racked_def rack_def by (simp add: tick_eval)

lemma creeping_prefix:
  assumes "0 < i" and "i \<le> NUM_BALLS"
  shows "simulate [0..<i] (racked 250 (1 / 10) STATE_SIMULATING, False)
     = Inr (racked (250 + 992 / 10000) 0 STATE_SIMULATING, False)"
proof -
  from assms(1) have split: "[0..<i] = 0 # [1..<i]" by (simp add: upt_rec)
  have "\<forall>j\<in>set [1..<i]. step_ball j (racked (250 + 992 / 10000) 0 STATE_SIMULATING, False)
       = Inr (racked (250 + 992 / 10000) 0 STATE_SIMULATING, False)"
  proof
    fix j assume "j \<in> set [1..<i]"
    with assms(2) have "j \<in> {i. 0 < i \<and> i < NUM_BALLS}" by simp
    then have "j \<in> {1, 2, 3, 4, 5, 6, 7, 8, 9, 10, 11, 12, 13, 14, 15}"
      by (simp only: object_balls)
    with crept_idle show "step_ball j (racked (250 + 992 / 10000) 0 STATE_SIMULATING, False)
       = Inr (racked (250 + 992 / 10000) 0 STATE_SIMULATING, False)" by blast
  qed
  from simulate_idle[OF this] show ?thesis
    unfolding split by (simp add: creeping_step0)
qed

lemma creeping_tick:
  "update (racked 250 (1 / 10) STATE_SIMULATING) = Inr (racked (250 + 992 / 10000) 0 STATE_AIMING)"
  using creeping_prefix[of NUM_BALLS]
  by (simp add: update_def racked_def NUM_BALLS_def)

lemma creeping_slow:
  assumes i: "i < NUM_BALLS"
    and run: "simulate [0..<i] (racked 250 (1 / 10) STATE_SIMULATING, False) = Inr (wi, m)"
  shows "speed (friction_vel (gBalls wi ! i)) < MIN_VELOCITY"
proof (cases "i = 0")
  case True
  with run have "wi = racked 250 (1 / 10) STATE_SIMULATING" by simp
  with True show ?thesis
    by (simp add: racked_def rack_def mk_ball_def speed_def friction_vel_def FRICTION_def
        sqrt_less_MINV)
next
  case False
  with i run creeping_prefix[of i] have "wi = racked (250 + 992 / 10000) 0 STATE_SIMULATING"
    by simp
  with rack_rest[of i] False i have "vel (gBalls wi ! i) = zero_vec" by (simp add: racked_def)
  then show ?thesis
    by (simp add: speed_def friction_vel_def zero_vec_def MIN_VELOCITY_def)
qed

lemma endgame_loop:
  "simulate [0..<NUM_BALLS] (endgame, False)
     = Inr (endgame_after\<lparr>gCurrentState := STATE_GAME_OVER\<rparr>, False)"
  unfolding endgame_def endgame_after_def by (simp add: tick_eval)

lemma endgame_tick: "update endgame = Inr endgame_after"
  unfolding update_def endgame_loop by (simp add: endgame_def endgame_after_def)

lemma sqrt_529: "sqrt 529 = 23"
  by (rule real_sqrt_unique) (simp_all add: power2_eq_square)

lemma squeeze_tick: "update squeeze = Inr squeeze_after"
  unfolding update_def squeeze_def squeeze_after_def
  by (simp add: tick_eval sqrt_529 sqrt_3025_4)

lemma sqrt_less_DIAMETER: "(sqrt a < BALL_DIAMETER) = (a < 900)"
proof -
  have "(sqrt a < sqrt 900) = (a < 900)" by (rule real_sqrt_less_iff)
  moreover have "sqrt 900 = 30" by (rule real_sqrt_unique) (simp_all add: power2_eq_square)
  ultimately show ?thesis by (simp add: BALL_DIAMETER_def BALL_RADIUS_def)
qed

lemma table_bounds: "tableX1 = 65" "tableX2 = 935" "tableY1 = 40" "tableY2 = 460"
  by (simp_all add: geometry)

section \<open>The claims\<close>

text \<open>
  C1. In every tick in which the capture step deactivates the money ball (id 8), the
  state is \<open>STATE_GAME_OVER\<close> at the end of that tick, whether or not other balls still
  move. The code does not keep this: on the table \<open>endgame\<close> the black ball creeps into
  the middle pocket with a speed below \<open>MIN_VELOCITY\<close>. The loop leaves the state
  \<open>STATE_GAME_OVER\<close> and the flag \<^verbatim>\<open>ballsAreMoving\<close> false, and the last statement of
  \<^verbatim>\<open>update\<close> (lines 333-335) then overwrites the state with \<open>STATE_AIMING\<close>.
\<close>

theorem money_ball_capture_overwritten:
  "tidy endgame \<and> gCurrentState endgame = STATE_SIMULATING
   \<and> isActive (gBalls endgame ! 8) \<and> ball_id (gBalls endgame ! 8) = 8
   \<and> simulate [0..<NUM_BALLS] (endgame, False)
        = Inr (endgame_after\<lparr>gCurrentState := STATE_GAME_OVER\<rparr>, False)
   \<and> update endgame = Inr endgame_after
   \<and> \<not> isActive (gBalls endgame_after ! 8)
   \<and> gCurrentState endgame_after = STATE_AIMING"
proof -
  have "tidy endgame"
    by (simp add: tidy_def endgame_def mk_ball_def potted_def in_bounds_def overlapping_def
        table_bounds BALL_DIAMETER_def BALL_RADIUS_def NUM_BALLS_def upt_rec)
  with endgame_loop endgame_tick show ?thesis
    by (simp add: endgame_def endgame_after_def mk_ball_def)
qed

text \<open>
  C2. When the centres of two active balls coincide as the collision step examines the
  pair, the pair is skipped (or the positions perturbed) and no division by the zero
  distance takes place. The code has no such guard: on the table \<open>coincide\<close> the cue ball
  is clamped to the cushion line exactly where ball 1 rests, the test of line 291 holds
  with \<^verbatim>\<open>distSq = 0\<close>, and lines 296-303 divide by \<^verbatim>\<open>dist = 0\<close>.
\<close>

theorem coincident_centres_divide_by_zero:
  "tidy coincide \<and> gCurrentState coincide = STATE_SIMULATING
   \<and> isActive (gBalls coincide ! 0) \<and> isActive (gBalls coincide ! 1)
   \<and> \<not> overlapping (gBalls coincide ! 0) (gBalls coincide ! 1)
   \<and> pos (cushions (fst (integrate (gBalls coincide ! 0)))) = pos (gBalls coincide ! 1)
   \<and> centre_dist (cushions (fst (integrate (gBalls coincide ! 0)))) (gBalls coincide ! 1) = 0
   \<and> resolve_pair (cushions (fst (integrate (gBalls coincide ! 0)))) (gBalls coincide ! 1)
        = Inl DivisionByZero
   \<and> update coincide = Inl DivisionByZero"
proof -
  have "tidy coincide"
    by (simp add: tidy_def coincide_def mk_ball_def potted_def in_bounds_def overlapping_def
        table_bounds BALL_DIAMETER_def BALL_RADIUS_def NUM_BALLS_def upt_rec)
  with coincide_tick show ?thesis
    by (simp add: coincide_def mk_ball_def overlapping_def centre_dist_def tick_eval)
qed

text \<open>
  C3. For an overlapping pair that the collision step resolves, the velocity exchange
  swaps the components of the two velocities along the collision normal and leaves the
  components perpendicular to it as they were. In particular, when ball \<open>j\<close> is at rest,
  ball \<open>i\<close> has no velocity along the normal afterwards and ball \<open>j\<close> has all of it; and
  when the hit is head-on as well (the velocity of ball \<open>i\<close> lies along the normal),
  ball \<open>i\<close> stops and ball \<open>j\<close> leaves with the velocity ball \<open>i\<close> came with.
\<close>

theorem velocity_exchange_swaps_normal_components:
  assumes "overlapping bi bj" and "resolve_pair bi bj = Inr (bi', bj')"
  shows "dot (collision_normal bi bj) (collision_normal bi bj) = 1
    \<and> dot (vel bi') (collision_normal bi bj) = dot (vel bj) (collision_normal bi bj)
    \<and> dot (vel bj') (collision_normal bi bj) = dot (vel bi) (collision_normal bi bj)
    \<and> dot (vel bi') (perp (collision_normal bi bj)) = dot (vel bi) (perp (collision_normal bi bj))
    \<and> dot (vel bj') (perp (collision_normal bi bj)) = dot (vel bj) (perp (collision_normal bi bj))
    \<and> (vel bj = zero_vec \<longrightarrow>
          dot (vel bi') (collision_normal bi bj) = 0
        \<and> dot (vel bj') (collision_normal bi bj) = dot (vel bi) (collision_normal bi bj))
    \<and> (vel bj = zero_vec \<and> dot (vel bi) (perp (collision_normal bi bj)) = 0 \<longrightarrow>
          vel bi' = zero_vec \<and> vel bj' = vel bi)
    \<and> (vel bi = zero_vec \<longrightarrow>
          dot (vel bj') (collision_normal bi bj) = 0
        \<and> dot (vel bi') (collision_normal bi bj) = dot (vel bj) (collision_normal bi bj))
    \<and> (vel bi = zero_vec \<and> dot (vel bj) (perp (collision_normal bi bj)) = 0 \<longrightarrow>
          vel bj' = zero_vec \<and> vel bi' = vel bj)"
proof -
  let ?n = "collision_normal bi bj"
  note r = resolve_pair_overlap[OF assms]
  have u: "vec_x ?n * vec_x ?n + vec_y ?n * vec_y ?n = 1" by (rule normal_unit[OF r(1)])
  note sw = swap_normal[OF u, where ax = "vec_x (vel bi)" and ay = "vec_y (vel bi)"
      and bx = "vec_x (vel bj)" and bz = "vec_y (vel bj)"]
  have a: "dot (vel bi') ?n = dot (vel bj) ?n"
    unfolding r(4) using sw(1) by (simp add: dot_def)
  have b: "dot (vel bj') ?n = dot (vel bi) ?n"
    unfolding r(5) using sw(2) by (simp add: dot_def)
  have c: "dot (vel bi') (perp ?n) = dot (vel bi) (perp ?n)"
    unfolding r(4) using sw(3) by (simp add: dot_def perp_def)
  have d: "dot (vel bj') (perp ?n) = dot (vel bj) (perp ?n)"
    unfolding r(5) using sw(4) by (simp add: dot_def perp_def)
  have e: "dot (vel bi') ?n = 0" if "vel bj = zero_vec"
    using a that by (simp add: dot_def zero_vec_def)
  have f: "vel bi' = zero_vec \<and> vel bj' = vel bi"
    if z: "vel bj = zero_vec" and par: "dot (vel bi) (perp ?n) = 0"
  proof -
    from par have par': "vec_x (vel bi) * (- vec_y ?n) + vec_y (vel bi) * vec_x ?n = 0"
      by (simp add: dot_def perp_def)
    note h = head_on_stop[OF u par']
    have zj: "dot (vel bj) ?n = 0" using z by (simp add: dot_def zero_vec_def)
    have "vel bi' = zero_vec"
      unfolding r(4) zj using h(1,2) by (simp add: dot_def zero_vec_def)
    moreover have "vel bj' = vel bi"
      unfolding r(5) zj using h(3,4) z by (simp add: dot_def zero_vec_def)
    ultimately show ?thesis by simp
  qed
  have e': "dot (vel bj') ?n = 0" if "vel bi = zero_vec"
    using b that by (simp add: dot_def zero_vec_def)
  have f': "vel bj' = zero_vec \<and> vel bi' = vel bj"
    if z: "vel bi = zero_vec" and par: "dot (vel bj) (perp ?n) = 0"
  proof -
    from par have par': "vec_x (vel bj) * (- vec_y ?n) + vec_y (vel bj) * vec_x ?n = 0"
      by (simp add: dot_def perp_def)
    note h = head_on_stop[OF u par']
    have zi: "dot (vel bi) ?n = 0" using z by (simp add: dot_def zero_vec_def)
    have "vel bj' = zero_vec"
      unfolding r(5) zi using h(1,2) by (simp add: dot_def zero_vec_def)
    moreover have "vel bi' = vel bj"
      unfolding r(4) zi using h(3,4) z by (simp add: dot_def zero_vec_def)
    ultimately show ?thesis by simp
  qed
  have first: "dot ?n ?n = 1" using u by (simp add: dot_def)
  from first a b c d e f e' f' show ?thesis by blast
qed

theorem velocity_exchange_witness:
  "overlapping striker target
   \<and> resolve_pair striker target = Inr (striker_after, target_after)
   \<and> collision_normal striker target = \<lparr>vec_x = 1, vec_y = 0\<rparr>
   \<and> vel striker = \<lparr>vec_x = 5, vec_y = 0\<rparr> \<and> vel target = zero_vec
   \<and> dot (vel striker_after) (collision_normal striker target) = 0
   \<and> dot (vel target_after) (collision_normal striker target) = 5
   \<and> vel striker_after = zero_vec \<and> vel target_after = vel striker"
proof -
  have ov: "overlapping striker target"
    by (simp add: overlapping_def striker_def target_def mk_ball_def geometry)
  have res: "resolve_pair striker target = Inr (striker_after, target_after)"
    by (simp add: resolve_pair_def striker_def target_def striker_after_def target_after_def
        mk_ball_def geometry Let_def sqrt_625)
  have n: "collision_normal striker target = \<lparr>vec_x = 1, vec_y = 0\<rparr>"
    by (simp add: collision_normal_def centre_dist_def striker_def target_def mk_ball_def
        sqrt_625)
  have v: "vel striker = \<lparr>vec_x = 5, vec_y = 0\<rparr>" "vel target = zero_vec"
    by (simp_all add: striker_def target_def mk_ball_def zero_vec_def)
  have par: "dot (vel striker) (perp (collision_normal striker target)) = 0"
    unfolding n v by (simp add: dot_def perp_def)
  have d: "dot (vel striker) (collision_normal striker target) = 5"
    unfolding n v by (simp add: dot_def)
  from velocity_exchange_swaps_normal_components[OF ov res] v(2) par d
  have "dot (vel striker_after) (collision_normal striker target) = 0"
    and "dot (vel target_after) (collision_normal striker target) = 5"
    and "vel striker_after = zero_vec" and "vel target_after = vel striker"
    by simp_all
  with ov res n v show ?thesis by simp
qed

text \<open>
  C4, as amended. Whenever the resolution of a pair yields a result (the centres do not
  coincide): if the pair overlaps, the positional correction moves each of the two balls
  half the overlap apart along the line joining the centres, and the centre distance of
  the pair right after its resolution is exactly one diameter; a pair that does not
  overlap is left as it is. So every pair is at least one diameter apart right after the
  collision step has examined it. Nothing is said about the end of the tick.
\<close>

theorem positional_correction_of_a_pair:
  assumes "resolve_pair bi bj = Inr (bi', bj')"
  shows "(overlapping bi bj \<longrightarrow>
            pos bi' =
              \<lparr>vec_x = vec_x (pos bi)
                 - (BALL_DIAMETER - centre_dist bi bj) / 2 * vec_x (collision_normal bi bj),
               vec_y = vec_y (pos bi)
                 - (BALL_DIAMETER - centre_dist bi bj) / 2 * vec_y (collision_normal bi bj)\<rparr>
          \<and> pos bj' =
              \<lparr>vec_x = vec_x (pos bj)
                 + (BALL_DIAMETER - centre_dist bi bj) / 2 * vec_x (collision_normal bi bj),
               vec_y = vec_y (pos bj)
                 + (BALL_DIAMETER - centre_dist bi bj) / 2 * vec_y (collision_normal bi bj)\<rparr>
          \<and> dot (collision_normal bi bj) (collision_normal bi bj) = 1
          \<and> centre_dist bi' bj' = BALL_DIAMETER)
       \<and> (\<not> overlapping bi bj \<longrightarrow> bi' = bi \<and> bj' = bj)
       \<and> BALL_DIAMETER \<le> centre_dist bi' bj'"
proof (cases "overlapping bi bj")
  case False
  then have same: "bi' = bi" "bj' = bj" using assms resolve_pair_separate[OF False] by simp_all
  from False have "BALL_DIAMETER * BALL_DIAMETER
      \<le> (vec_x (pos bj) - vec_x (pos bi)) * (vec_x (pos bj) - vec_x (pos bi))
      + (vec_y (pos bj) - vec_y (pos bi)) * (vec_y (pos bj) - vec_y (pos bi))"
    by (simp add: overlapping_def)
  then have "sqrt (BALL_DIAMETER * BALL_DIAMETER) \<le> centre_dist bi bj"
    unfolding centre_dist_def by (rule real_sqrt_le_mono)
  then have "BALL_DIAMETER \<le> centre_dist bi bj" by (simp only: sqrt_diam)
  with False same show ?thesis by simp
next
  case True
  let ?n = "collision_normal bi bj"
  let ?d = "centre_dist bi bj"
  note r = resolve_pair_overlap[OF True assms]
  have u: "vec_x ?n * vec_x ?n + vec_y ?n * vec_y ?n = 1" by (rule normal_unit[OF r(1)])
  note sc = normal_scaled[OF r(1)]
  have dx: "vec_x (pos bj') - vec_x (pos bi') = BALL_DIAMETER * vec_x ?n"
    unfolding r(2) r(3) using sc(1) by (simp add: algebra_simps)
  have dy: "vec_y (pos bj') - vec_y (pos bi') = BALL_DIAMETER * vec_y ?n"
    unfolding r(2) r(3) using sc(2) by (simp add: algebra_simps)
  have "centre_dist bi' bj'
      = sqrt (BALL_DIAMETER * BALL_DIAMETER * (vec_x ?n * vec_x ?n + vec_y ?n * vec_y ?n))"
    unfolding centre_dist_def dx dy by (simp add: algebra_simps)
  also have "\<dots> = BALL_DIAMETER" unfolding u by (simp only: mult_1_right sqrt_diam)
  finally have "centre_dist bi' bj' = BALL_DIAMETER" .
  with True r(2) r(3) u show ?thesis by (simp add: dot_def)
qed

theorem positional_correction_witness:
  "resolve_pair skew_i skew_j = Inr (skew_i_after, skew_j_after)
   \<and> overlapping skew_i skew_j
   \<and> centre_dist skew_i skew_j = 25
   \<and> collision_normal skew_i skew_j = \<lparr>vec_x = 3 / 5, vec_y = 4 / 5\<rparr>
   \<and> pos skew_i_after = \<lparr>vec_x = 98 + 5 / 10, vec_y = 98\<rparr>
   \<and> pos skew_j_after = \<lparr>vec_x = 116 + 5 / 10, vec_y = 122\<rparr>
   \<and> centre_dist skew_i_after skew_j_after = BALL_DIAMETER"
proof -
  have res: "resolve_pair skew_i skew_j = Inr (skew_i_after, skew_j_after)"
    by (simp add: resolve_pair_def skew_i_def skew_j_def skew_i_after_def skew_j_after_def
        mk_ball_def geometry Let_def sqrt_625)
  have ov: "overlapping skew_i skew_j"
    by (simp add: overlapping_def skew_i_def skew_j_def mk_ball_def geometry)
  have d: "centre_dist skew_i skew_j = 25"
    by (simp add: centre_dist_def skew_i_def skew_j_def mk_ball_def sqrt_625)
  have n: "collision_normal skew_i skew_j = \<lparr>vec_x = 3 / 5, vec_y = 4 / 5\<rparr>"
    unfolding collision_normal_def d by (simp add: skew_i_def skew_j_def mk_ball_def)
  from positional_correction_of_a_pair[OF res] ov
  have "centre_dist skew_i_after skew_j_after = BALL_DIAMETER" by simp
  moreover have "pos skew_i_after = \<lparr>vec_x = 98 + 5 / 10, vec_y = 98\<rparr>"
    "pos skew_j_after = \<lparr>vec_x = 116 + 5 / 10, vec_y = 122\<rparr>"
    by (simp_all add: skew_i_after_def skew_j_after_def mk_ball_def)
  ultimately show ?thesis using res ov d n by simp
qed

text \<open>
  C4 as stated fails in its second half: on the table \<open>chase\<close> no two active balls
  overlap; the pair (0, 1) is examined while the cue ball is processed, before ball 1 has
  moved; ball 1 then rolls to within 20.16 of the cue ball, and the pair is not examined
  again in this tick.
\<close>

theorem overlap_at_end_of_tick:
  "tidy chase \<and> gCurrentState chase = STATE_SIMULATING
   \<and> update chase = Inr chase_after
   \<and> isActive (gBalls chase_after ! 0) \<and> isActive (gBalls chase_after ! 1)
   \<and> centre_dist (gBalls chase_after ! 0) (gBalls chase_after ! 1) < BALL_DIAMETER"
proof -
  have "tidy chase"
    by (simp add: tidy_def chase_def mk_ball_def potted_def in_bounds_def overlapping_def
        table_bounds BALL_DIAMETER_def BALL_RADIUS_def NUM_BALLS_def upt_rec)
  moreover have "centre_dist (gBalls chase_after ! 0) (gBalls chase_after ! 1) < BALL_DIAMETER"
    by (simp add: centre_dist_def chase_after_def mk_ball_def sqrt_less_DIAMETER)
  ultimately show ?thesis using chase_tick
    by (simp add: chase_def chase_after_def mk_ball_def)
qed

text \<open>
  C5. The cushion step, on any ball: a coordinate that has crossed one of the four inset
  bounds is set to that bound and the velocity component of that axis is negated, its
  magnitude kept; a coordinate within its two bounds is left alone with its velocity
  component. The two axes are treated independently, and afterwards the centre lies
  within the inset bounds.
\<close>

theorem cushions_clamp_and_reflect:
  "(vec_x (pos b) < tableX1 \<longrightarrow>
      vec_x (pos (cushions b)) = tableX1 \<and> vec_x (vel (cushions b)) = - vec_x (vel b))
   \<and> (vec_x (pos b) > tableX2 \<longrightarrow>
      vec_x (pos (cushions b)) = tableX2 \<and> vec_x (vel (cushions b)) = - vec_x (vel b))
   \<and> (vec_y (pos b) < tableY1 \<longrightarrow>
      vec_y (pos (cushions b)) = tableY1 \<and> vec_y (vel (cushions b)) = - vec_y (vel b))
   \<and> (vec_y (pos b) > tableY2 \<longrightarrow>
      vec_y (pos (cushions b)) = tableY2 \<and> vec_y (vel (cushions b)) = - vec_y (vel b))
   \<and> (tableX1 \<le> vec_x (pos b) \<and> vec_x (pos b) \<le> tableX2 \<longrightarrow>
      vec_x (pos (cushions b)) = vec_x (pos b) \<and> vec_x (vel (cushions b)) = vec_x (vel b))
   \<and> (tableY1 \<le> vec_y (pos b) \<and> vec_y (pos b) \<le> tableY2 \<longrightarrow>
      vec_y (pos (cushions b)) = vec_y (pos b) \<and> vec_y (vel (cushions b)) = vec_y (vel b))
   \<and> \<bar>vec_x (vel (cushions b))\<bar> = \<bar>vec_x (vel b)\<bar>
   \<and> \<bar>vec_y (vel (cushions b))\<bar> = \<bar>vec_y (vel b)\<bar>
   \<and> in_bounds (pos (cushions b))
   \<and> ball_id (cushions b) = ball_id b \<and> isActive (cushions b) = isActive b"
  by (simp add: cushions_def Let_def bounce_x_def bounce_y_def in_bounds_def table_bounds)

theorem cushions_witness:
  "vec_x (pos corner_ball) < tableX1 \<and> vec_y (pos corner_ball) > tableY2
   \<and> vec_x (pos (cushions corner_ball)) = tableX1
   \<and> vec_y (pos (cushions corner_ball)) = tableY2
   \<and> vec_x (vel (cushions corner_ball)) = 3
   \<and> vec_y (vel (cushions corner_ball)) = - 4
   \<and> in_bounds (pos (cushions corner_ball))"
proof -
  have x: "vec_x (pos corner_ball) < tableX1" and y: "vec_y (pos corner_ball) > tableY2"
    by (simp_all add: corner_ball_def mk_ball_def table_bounds)
  have v: "vec_x (vel corner_ball) = - 3" "vec_y (vel corner_ball) = 4"
    by (simp_all add: corner_ball_def mk_ball_def)
  from cushions_clamp_and_reflect[of corner_ball] x y v show ?thesis by simp
qed

text \<open>
  C6. A tick in the state \<open>STATE_SIMULATING\<close> in which the speed of every active ball
  after friction, at the moment the loop reaches that ball, is below \<open>MIN_VELOCITY\<close>: the
  velocity of each such ball is set to zero by the integration step, no ball is reported
  as moving, and the tick ends in \<open>STATE_AIMING\<close>. The world in which the loop reaches
  ball \<open>i\<close> is the result of the loop on the balls before it.
\<close>

theorem settling_tick_returns_to_aiming:
  assumes "gCurrentState w = STATE_SIMULATING"
    and "\<forall>i<NUM_BALLS. \<forall>wi m. simulate [0..<i] (w, False) = Inr (wi, m) \<and> isActive (gBalls wi ! i)
            \<longrightarrow> speed (friction_vel (gBalls wi ! i)) < MIN_VELOCITY"
    and "update w = Inr w'"
  shows "gCurrentState w' = STATE_AIMING
    \<and> (\<forall>i<NUM_BALLS. \<forall>wi m. simulate [0..<i] (w, False) = Inr (wi, m) \<and> isActive (gBalls wi ! i)
            \<longrightarrow> vel (fst (integrate (gBalls wi ! i))) = zero_vec
              \<and> \<not> snd (integrate (gBalls wi ! i)))"
proof -
  from assms(1,3) obtain w1 m1 where run: "simulate [0..<NUM_BALLS] (w, False) = Inr (w1, m1)"
    and w': "w' = (if \<not> m1 then w1\<lparr>gCurrentState := STATE_AIMING\<rparr> else w1)"
    by (auto simp: update_def split: sum.splits prod.splits)
  have "m1 = False"
    by (rule simulate_flag[OF _ run]) (use assms(2) in blast)
  with w' have "gCurrentState w' = STATE_AIMING" by simp
  moreover have "vel (fst (integrate (gBalls wi ! i))) = zero_vec \<and> \<not> snd (integrate (gBalls wi ! i))"
    if "i < NUM_BALLS" "simulate [0..<i] (w, False) = Inr (wi, m)" "isActive (gBalls wi ! i)"
    for i wi m
    by (rule integrate_slow) (use assms(2) that in blast)
  ultimately show ?thesis by blast
qed

theorem settling_tick_witness:
  "gCurrentState (racked 250 (1 / 10) STATE_SIMULATING) = STATE_SIMULATING
   \<and> update (racked 250 (1 / 10) STATE_SIMULATING) = Inr (racked (250 + 992 / 10000) 0 STATE_AIMING)
   \<and> speed (friction_vel (gBalls (racked 250 (1 / 10) STATE_SIMULATING) ! 0)) < MIN_VELOCITY
   \<and> gCurrentState (racked (250 + 992 / 10000) 0 STATE_AIMING) = STATE_AIMING
   \<and> vel (fst (integrate (gBalls (racked 250 (1 / 10) STATE_SIMULATING) ! 0))) = zero_vec"
proof -
  let ?w = "racked 250 (1 / 10) STATE_SIMULATING"
  have sim: "gCurrentState ?w = STATE_SIMULATING" by (simp add: racked_def)
  have slow: "\<forall>i<NUM_BALLS. \<forall>wi m. simulate [0..<i] (?w, False) = Inr (wi, m) \<and> isActive (gBalls wi ! i)
            \<longrightarrow> speed (friction_vel (gBalls wi ! i)) < MIN_VELOCITY"
    using creeping_slow by blast
  have cue: "isActive (gBalls ?w ! 0)" "0 < NUM_BALLS" "simulate [0..<0] (?w, False) = Inr (?w, False)"
    by (simp_all add: racked_def rack_def mk_ball_def NUM_BALLS_def)
  from settling_tick_returns_to_aiming[OF sim slow creeping_tick]
  have "gCurrentState (racked (250 + 992 / 10000) 0 STATE_AIMING) = STATE_AIMING"
    and "vel (fst (integrate (gBalls ?w ! 0))) = zero_vec"
    using cue by blast+
  moreover have "speed (friction_vel (gBalls ?w ! 0)) < MIN_VELOCITY"
    using slow cue by blast
  ultimately show ?thesis using sim creeping_tick by simp
qed

text \<open>
  C7. A mouse-button event in the state \<open>STATE_AIMING\<close> with the cue ball active: with
  \<open>(dx, dy)\<close> the vector from the cue ball to the pointer, the velocity of the cue ball
  becomes \<open>(- dx, - dy)\<close> times \<open>CUE_POWER_MULTIPLIER\<close>, the state becomes
  \<open>STATE_SIMULATING\<close>, and nothing else changes.
\<close>

theorem shoot_sets_cue_velocity:
  assumes "gCurrentState w = STATE_AIMING" and "isActive (gBalls w ! 0)"
    and "length (gBalls w) = NUM_BALLS"
  shows "handle_event (SDL_MOUSEBUTTONDOWN mouseX mouseY) w =
      w\<lparr>gBalls := (gBalls w)[0 := (gBalls w ! 0)\<lparr>vel :=
            \<lparr>vec_x = - (real_of_int mouseX - vec_x (pos (gBalls w ! 0))) * CUE_POWER_MULTIPLIER,
             vec_y = - (real_of_int mouseY - vec_y (pos (gBalls w ! 0))) * CUE_POWER_MULTIPLIER\<rparr>\<rparr>],
         gCurrentState := STATE_SIMULATING\<rparr>
    \<and> vel (gBalls (handle_event (SDL_MOUSEBUTTONDOWN mouseX mouseY) w) ! 0) =
        \<lparr>vec_x = - (real_of_int mouseX - vec_x (pos (gBalls w ! 0))) * CUE_POWER_MULTIPLIER,
         vec_y = - (real_of_int mouseY - vec_y (pos (gBalls w ! 0))) * CUE_POWER_MULTIPLIER\<rparr>
    \<and> gCurrentState (handle_event (SDL_MOUSEBUTTONDOWN mouseX mouseY) w) = STATE_SIMULATING"
proof -
  have ev: "handle_event (SDL_MOUSEBUTTONDOWN mouseX mouseY) w = shoot mouseX mouseY w"
    using assms(1,2) by (simp add: handle_event_def Let_def)
  have ne: "0 < length (gBalls w)" using assms(3) by (simp add: NUM_BALLS_def)
  define v where "v =
      \<lparr>vec_x = - (real_of_int mouseX - vec_x (pos (gBalls w ! 0))) * CUE_POWER_MULTIPLIER,
       vec_y = - (real_of_int mouseY - vec_y (pos (gBalls w ! 0))) * CUE_POWER_MULTIPLIER\<rparr>"
  show ?thesis unfolding ev shoot_def Let_def v_def[symmetric] using ne by simp
qed

theorem shoot_witness:
  "gCurrentState fresh_table = STATE_AIMING \<and> isActive (gBalls fresh_table ! 0)
   \<and> length (gBalls fresh_table) = NUM_BALLS
   \<and> pos (gBalls fresh_table ! 0) = \<lparr>vec_x = 250, vec_y = 250\<rparr>
   \<and> vel (gBalls (handle_event (SDL_MOUSEBUTTONDOWN 350 250) fresh_table) ! 0)
        = \<lparr>vec_x = - 15, vec_y = 0\<rparr>
   \<and> gCurrentState (handle_event (SDL_MOUSEBUTTONDOWN 350 250) fresh_table) = STATE_SIMULATING"
proof -
  have st: "gCurrentState fresh_table = STATE_AIMING"
    and act: "isActive (gBalls fresh_table ! 0)"
    and len: "length (gBalls fresh_table) = NUM_BALLS"
    and p: "pos (gBalls fresh_table ! 0) = \<lparr>vec_x = 250, vec_y = 250\<rparr>"
    unfolding fresh_table_eq by (simp_all add: racked_def rack_def mk_ball_def NUM_BALLS_def)
  from shoot_sets_cue_velocity[OF st act len, of 350 250, THEN conjunct2] p
  have "vel (gBalls (handle_event (SDL_MOUSEBUTTONDOWN 350 250) fresh_table) ! 0)
        = \<lparr>vec_x = - 15, vec_y = 0\<rparr>"
    and "gCurrentState (handle_event (SDL_MOUSEBUTTONDOWN 350 250) fresh_table) = STATE_SIMULATING"
    by (simp_all add: CUE_POWER_MULTIPLIER_def)
  with st act len p show ?thesis by simp
qed

text \<open>
  C8. A mouse-button event while the state is not \<open>STATE_AIMING\<close>, or while the cue ball
  is inactive, leaves the whole world as it is. In the state \<open>STATE_GAME_OVER\<close> a tick
  changes nothing, no event but the key R changes the state or a ball, any number of
  rounds of the game loop without that key end in \<open>STATE_GAME_OVER\<close> with the balls
  untouched, and the key R leads to \<open>STATE_AIMING\<close>.
\<close>

theorem shoot_ignored_outside_aiming:
  "(gCurrentState w \<noteq> STATE_AIMING \<or> \<not> isActive (gBalls w ! 0)
      \<longrightarrow> handle_event (SDL_MOUSEBUTTONDOWN mouseX mouseY) w = w)
   \<and> (gCurrentState w = STATE_GAME_OVER \<longrightarrow>
        update w = Inr w
      \<and> (e \<noteq> SDL_KEYDOWN SDLK_r \<longrightarrow>
            gCurrentState (handle_event e w) = STATE_GAME_OVER
          \<and> gBalls (handle_event e w) = gBalls w)
      \<and> (no_reset rounds \<longrightarrow>
            (\<exists>w'. game_loop rounds w = Inr w' \<and> gCurrentState w' = STATE_GAME_OVER
                  \<and> gBalls w' = gBalls w))
      \<and> gCurrentState (handle_event (SDL_KEYDOWN SDLK_r) w) = STATE_AIMING)"
proof -
  have a: "handle_event (SDL_MOUSEBUTTONDOWN mouseX mouseY) w = w"
    if "gCurrentState w \<noteq> STATE_AIMING \<or> \<not> isActive (gBalls w ! 0)"
    using that by (auto simp: handle_event_def Let_def)
  have r: "gCurrentState (handle_event (SDL_KEYDOWN SDLK_r) w) = STATE_AIMING"
    by (simp add: handle_event_def Let_def reset_game_def)
  show ?thesis
    using a r update_over[of w] handle_event_over[of w e] game_loop_over[of w rounds]
    by blast
qed

theorem shoot_ignored_witness:
  "gCurrentState finished = STATE_GAME_OVER
   \<and> handle_event (SDL_MOUSEBUTTONDOWN 400 100) finished = finished
   \<and> update finished = Inr finished
   \<and> no_reset [[SDL_MOUSEBUTTONDOWN 400 100], [SDL_OTHER, SDL_KEYDOWN SDLK_other]]
   \<and> (\<exists>w'. game_loop [[SDL_MOUSEBUTTONDOWN 400 100], [SDL_OTHER, SDL_KEYDOWN SDLK_other]] finished
              = Inr w'
          \<and> gCurrentState w' = STATE_GAME_OVER \<and> gBalls w' = gBalls finished)
   \<and> gCurrentState (handle_event (SDL_KEYDOWN SDLK_r) finished) = STATE_AIMING"
proof -
  have st: "gCurrentState finished = STATE_GAME_OVER" by (simp add: finished_def)
  have nr: "no_reset [[SDL_MOUSEBUTTONDOWN 400 100], [SDL_OTHER, SDL_KEYDOWN SDLK_other]]"
    by (simp add: no_reset_def)
  from shoot_ignored_outside_aiming[of finished 400 100 "SDL_OTHER"
      "[[SDL_MOUSEBUTTONDOWN 400 100], [SDL_OTHER, SDL_KEYDOWN SDLK_other]]"] st nr
  show ?thesis by simp
qed

text \<open>
  C9. A ball whose active flag is false, in any world: a tick leaves it as it is; so does
  any number of rounds of the game loop (events and ticks) without the key R; and the
  tick takes no notice of it, since putting any other inactive ball in its place changes
  nothing of the outcome of the tick but that place.
\<close>

theorem captured_ball_is_left_alone:
  assumes "k < length (gBalls w)" and "\<not> isActive (gBalls w ! k)"
  shows "(update w = Inr w1 \<longrightarrow> gBalls w1 ! k = gBalls w ! k)
    \<and> (no_reset rounds \<and> game_loop rounds w = Inr w2 \<longrightarrow> gBalls w2 ! k = gBalls w ! k)
    \<and> (\<not> isActive b' \<longrightarrow>
          update (w\<lparr>gBalls := (gBalls w)[k := b']\<rparr>)
            = map_sum id (\<lambda>w'. w'\<lparr>gBalls := (gBalls w')[k := b']\<rparr>) (update w))"
  using update_keeps[OF assms(2), of w1] game_loop_keeps[OF assms(2), of rounds w2]
    update_frame[OF assms, of b']
  by blast

theorem captured_ball_witness:
  "3 < length (gBalls endgame) \<and> \<not> isActive (gBalls endgame ! 3)
   \<and> update endgame = Inr endgame_after
   \<and> gBalls endgame_after ! 3 = gBalls endgame ! 3
   \<and> no_reset [[], [SDL_MOUSEBUTTONDOWN 300 250]]
   \<and> game_loop [[], [SDL_MOUSEBUTTONDOWN 300 250]] endgame = Inr endgame_shot
   \<and> gBalls endgame_shot ! 3 = gBalls endgame ! 3
   \<and> \<not> isActive stray
   \<and> update (endgame\<lparr>gBalls := (gBalls endgame)[3 := stray]\<rparr>)
        = Inr (endgame_after\<lparr>gBalls := (gBalls endgame_after)[3 := stray]\<rparr>)"
proof -
  have len: "3 < length (gBalls endgame)" and off: "\<not> isActive (gBalls endgame ! 3)"
    by (simp_all add: endgame_def potted_def mk_ball_def)
  have nr: "no_reset [[], [SDL_MOUSEBUTTONDOWN 300 250]]" by (simp add: no_reset_def)
  have shot: "update (handle_event (SDL_MOUSEBUTTONDOWN 300 250) endgame_after) = Inr endgame_shot"
    unfolding update_def handle_event_def shoot_def endgame_after_def endgame_shot_def
    by (simp add: tick_eval CUE_POWER_MULTIPLIER_def)
  have run: "game_loop [[], [SDL_MOUSEBUTTONDOWN 300 250]] endgame = Inr endgame_shot"
    using endgame_tick shot
    by (simp add: handle_input_def endgame_def endgame_after_def endgame_shot_def)
  have st: "\<not> isActive stray" by (simp add: stray_def mk_ball_def)
  from captured_ball_is_left_alone[OF len off, of endgame_after
      "[[], [SDL_MOUSEBUTTONDOWN 300 250]]" endgame_shot stray] endgame_tick nr run st
  show ?thesis using len off by simp
qed

text \<open>
  C10. There is a configuration from which one tick ends with an active ball outside the
  inset bounds. On the table \<open>squeeze\<close> every active centre is within the bounds and no
  two active balls overlap. The cue ball is processed first and pushes ball 2 towards
  ball 1. When the loop reaches ball 1, the cushion step finds it within the bounds and
  changes nothing; the collision step then resolves the pair (1, 2) and moves ball 1
  half the overlap to the left, past the bound \<open>tableX1\<close>; nothing clamps it again in
  this tick.
\<close>

theorem push_past_cushion_after_clamp:
  "tidy squeeze \<and> gCurrentState squeeze = STATE_SIMULATING
   \<and> step_ball 0 (squeeze, False) = Inr (squeeze_mid, True)
   \<and> isActive (gBalls squeeze_mid ! 1)
   \<and> cushions (fst (integrate (gBalls squeeze_mid ! 1))) = gBalls squeeze_mid ! 1
   \<and> in_bounds (pos (gBalls squeeze_mid ! 1))
   \<and> resolve_pair (gBalls squeeze_mid ! 1) (gBalls squeeze_mid ! 2)
        = Inr (gBalls squeeze_after ! 1, gBalls squeeze_after ! 2)
   \<and> update squeeze = Inr squeeze_after
   \<and> isActive (gBalls squeeze_after ! 1)
   \<and> vec_x (pos (gBalls squeeze_after ! 1)) < tableX1
   \<and> \<not> in_bounds (pos (gBalls squeeze_after ! 1))"
proof -
  have t: "tidy squeeze"
    by (simp add: tidy_def squeeze_def mk_ball_def potted_def in_bounds_def overlapping_def
        table_bounds BALL_DIAMETER_def BALL_RADIUS_def NUM_BALLS_def upt_rec)
  have s0: "step_ball 0 (squeeze, False) = Inr (squeeze_mid, True)"
    unfolding squeeze_def squeeze_mid_def by (simp add: tick_eval sqrt_529)
  have c: "cushions (fst (integrate (gBalls squeeze_mid ! 1))) = gBalls squeeze_mid ! 1"
    by (simp add: squeeze_mid_def tick_eval)
  have r: "resolve_pair (gBalls squeeze_mid ! 1) (gBalls squeeze_mid ! 2)
        = Inr (gBalls squeeze_after ! 1, gBalls squeeze_after ! 2)"
    by (simp add: squeeze_mid_def squeeze_after_def tick_eval sqrt_3025_4)
  have rest: "gCurrentState squeeze = STATE_SIMULATING" "isActive (gBalls squeeze_mid ! 1)"
    "in_bounds (pos (gBalls squeeze_mid ! 1))" "isActive (gBalls squeeze_after ! 1)"
    "vec_x (pos (gBalls squeeze_after ! 1)) < tableX1"
    "\<not> in_bounds (pos (gBalls squeeze_after ! 1))"
    by (simp_all add: squeeze_def squeeze_mid_def squeeze_after_def mk_ball_def in_bounds_def
        table_bounds)
  from t s0 c r rest squeeze_tick show ?thesis by simp
qed

end
